theory Spec2Isabelle
  imports Complex_Main "HOL-Library.Word" "HOL-Library.Product_Lexorder"
begin

section \<open>Basic types\<close>

text \<open>
  A \<open>uuid.UUID\<close> is sixteen bytes. Its canonical string form (lower-case hexadecimal with
  dashes at fixed positions) orders lexicographically exactly as the 128-bit value orders as
  an unsigned number, so wherever the store orders the strings the model orders the words.
\<close>

type_synonym uuid = "128 word"

text \<open>
  A \<open>time.Time\<close> is an instant, held as nanoseconds since the Unix epoch. \<open>Unix\<close> is the
  number of whole seconds (rounded down), \<open>Hours\<close> the length of a duration in hours.
  \<open>float64\<close> values are taken as reals; the infinities and NaN are kept apart, because the
  store refuses a NaN range bound.
\<close>

type_synonym Time = int

definition Unix :: "Time \<Rightarrow> int" where
  "Unix t = t div 1000000000"

definition Sub :: "Time \<Rightarrow> Time \<Rightarrow> int" where
  "Sub t u = t - u"

definition Hours :: "int \<Rightarrow> real" where
  "Hours d = real_of_int d / 3600000000000"

datatype float64 = Finite real | PosInf | NegInf | NaN

datatype error =
    UserNotFound
  | PostNotFound
  | PermissionDenied
  | InvalidPostID
  | RedisError
  | SliceBoundsPanic

section \<open>The sorted sets of the timeline store\<close>

text \<open>
  A Redis sorted set holds each member once, with a score, ordered by score and then by
  member. It is modelled as the list of its \<open>(score, member)\<close> pairs in ascending order.
  Every score this program writes is \<open>float64(timestamp.Unix())\<close>, a whole number, so
  scores are integers. Commands are taken to reach the store and to be executed by it:
  connection failures and key expiry are outside the model, so \<open>Expire\<close> has no effect here.
\<close>

type_synonym zset = "(int \<times> uuid) list"

definition zset_inv :: "zset \<Rightarrow> bool" where
  "zset_inv z \<longleftrightarrow> sorted z \<and> distinct (map snd z)"

definition ZAdd :: "zset \<Rightarrow> int \<Rightarrow> uuid \<Rightarrow> zset" where
  "ZAdd z sc m = insort (sc, m) (filter (\<lambda>e. snd e \<noteq> m) z)"

definition ZScore :: "zset \<Rightarrow> uuid \<Rightarrow> int option" where
  "ZScore z m = map_option fst (find (\<lambda>e. snd e = m) z)"

text \<open>
  \<open>ZREMRANGEBYRANK key start stop\<close>: negative ranks count from the highest score; the range
  is clipped to the set; an empty range removes nothing.
\<close>

definition ZRemRangeByRank :: "zset \<Rightarrow> int \<Rightarrow> int \<Rightarrow> zset" where
  "ZRemRangeByRank z start stop =
     (let llen = int (length z);
          start1 = (if start < 0 then llen + start else start);
          stop1 = (if stop < 0 then llen + stop else stop);
          start2 = (if start1 < 0 then 0 else start1)
      in if start2 > stop1 \<or> start2 \<ge> llen then z
         else let stop2 = (if stop1 \<ge> llen then llen - 1 else stop1)
              in take (nat start2) z @ drop (nat (stop2 + 1)) z)"

text \<open>
  The range bound \<open>fmt.Sprintf("(%f", maxScore)\<close>: \<open>%f\<close> prints six decimals, rounding
  half to even, and the store reads the number back. NaN prints as \<open>NaN\<close>, which the store
  rejects; the infinities are accepted.
\<close>

definition Sprintf_f :: "real \<Rightarrow> real" where
  "Sprintf_f r =
     (let y = r * 1000000; f = \<lfloor>y\<rfloor>; d = y - of_int f
      in (if d < 1 / 2 then of_int f
          else if d > 1 / 2 then of_int (f + 1)
          else if even f then of_int f else of_int (f + 1)) / 1000000)"

fun below_excl :: "float64 \<Rightarrow> int \<Rightarrow> bool" where
  "below_excl (Finite r) sc = (of_int sc < Sprintf_f r)"
| "below_excl PosInf sc = True"
| "below_excl NegInf sc = False"
| "below_excl NaN sc = False"

text \<open>
  \<open>ZREVRANGEBYSCORE key (max -inf WITHSCORES [LIMIT 0 count]\<close>. The client sends the
  \<open>LIMIT\<close> clause only when \<open>count\<close> is not zero, and the store takes a negative count as
  no limit.
\<close>

definition ZRevRangeByScoreWithScores :: "zset \<Rightarrow> float64 \<Rightarrow> int \<Rightarrow> error + zset" where
  "ZRevRangeByScoreWithScores z mx count =
     (if mx = NaN then Inl RedisError
      else let hits = filter (\<lambda>e. below_excl mx (fst e)) (rev z)
           in Inr (if count > 0 then take (nat count) hits else hits))"

section \<open>Data model\<close>

text \<open>
  The rows of the relational store. Of \<open>models.Post\<close> and \<open>models.User\<close> the fields
  that the modelled functions read or write are kept.
\<close>

text \<open>
  Modelled from the spec: the fields \<open>LastActiveAt\<close>, \<open>ActivityScore\<close> and \<open>IsOnline\<close>
  of \<open>models.User\<close>. The activity service reads and writes them, the declaration of the
  struct in the sources lacks them, and the specification gives them as a nullable
  last-active time, a double and a flag.
\<close>

record User =
  user_ID :: uuid
  Followers :: int
  Following :: int
  LastActiveAt :: "Time option"
  ActivityScore :: real
  IsOnline :: bool

record Post =
  post_ID :: uuid
  post_UserID :: uuid
  Content :: string
  post_Score :: real
  IsDeleted :: bool
  post_CreatedAt :: Time

record Timeline =
  tl_UserID :: uuid
  tl_PostID :: uuid
  tl_Score :: real
  tl_CreatedAt :: Time

text \<open>
  The value stored under \<open>distribution_status:<post id>\<close>. The program writes the two ids
  with \<open>uuid.String\<close> and reads them back with \<open>uuid.Parse\<close>; the model keeps the ids.
\<close>

record DistributionStatus =
  ds_PostID :: uuid
  ds_AuthorID :: uuid
  Status :: string
  Timestamp :: int

record TimelineItem =
  item_PostID :: uuid
  item_Score :: int
  item_Timestamp :: Time

record FeedConfig =
  PushThreshold :: int
  MaxFeedSize :: int

text \<open>Events handed to the producer, in the order of publication.\<close>

datatype event =
    PostDeleted string string Time
  | PostDistributionCompleted uuid uuid nat Time

text \<open>
  The history of the write commands the cache has executed on timelines and on distribution
  records, oldest first. The program never reads it; it is kept to state in which order a
  function writes.
\<close>

datatype command =
    ZADD uuid int uuid
  | ZREMRANGEBYRANK uuid int int
  | DEL_timeline uuid
  | SET_status uuid string
  | DEL_status uuid

text \<open>
  The state of the two stores and of the bus: the tables \<open>users\<close>, \<open>posts\<close>, \<open>follows\<close>
  (pairs follower, followed) and \<open>timelines\<close> of the database, and the keys
  \<open>timeline:<id>\<close>, \<open>distribution_status:<id>\<close>, \<open>active_followers:<id>\<close>,
  \<open>user_online:<id>\<close> and \<open>user_active:<id>\<close> of the cache. An absent sorted set is the
  empty one. \<open>active_followers\<close> holds the members of the set that parse as ids, highest
  rank first.
\<close>

record sys =
  users :: "uuid \<rightharpoonup> User"
  posts :: "uuid \<rightharpoonup> Post"
  follows :: "(uuid \<times> uuid) list"
  timelines :: "Timeline list"
  timeline_cache :: "uuid \<Rightarrow> zset"
  distribution_status :: "uuid \<rightharpoonup> DistributionStatus"
  active_followers :: "uuid \<Rightarrow> uuid list"
  user_online :: "uuid \<rightharpoonup> string"
  user_active :: "uuid \<rightharpoonup> string"
  history :: "command list"
  bus :: "event list"

section \<open>Cache commands on the state\<close>

definition cache_ZAdd :: "sys \<Rightarrow> uuid \<Rightarrow> int \<Rightarrow> uuid \<Rightarrow> sys" where
  "cache_ZAdd s key sc m =
     s\<lparr>timeline_cache := (timeline_cache s)(key := ZAdd (timeline_cache s key) sc m),
       history := history s @ [ZADD key sc m]\<rparr>"

definition cache_ZRemRangeByRank :: "sys \<Rightarrow> uuid \<Rightarrow> int \<Rightarrow> int \<Rightarrow> sys" where
  "cache_ZRemRangeByRank s key start stop =
     s\<lparr>timeline_cache :=
         (timeline_cache s)(key := ZRemRangeByRank (timeline_cache s key) start stop),
       history := history s @ [ZREMRANGEBYRANK key start stop]\<rparr>"

definition cache_Expire :: "sys \<Rightarrow> uuid \<Rightarrow> sys" where
  "cache_Expire s key = s"


section \<open>TimelineCacheService\<close>

definition MaxTimelineSize :: int where
  "MaxTimelineSize = 1000"

text \<open>
  \<open>AddToTimeline\<close>. The parameter \<open>score\<close> is received and not used: the score of the entry
  is the Unix time of \<open>timestamp\<close>. With the store reachable the function returns no error.
\<close>

definition AddToTimeline :: "sys \<Rightarrow> uuid \<Rightarrow> uuid \<Rightarrow> real \<Rightarrow> Time \<Rightarrow> sys" where
  "AddToTimeline s userID postID score timestamp =
     (let scoreValue = Unix timestamp;
          s1 = cache_ZAdd s userID scoreValue postID;
          s2 = cache_ZRemRangeByRank s1 userID 0 (- MaxTimelineSize - 1)
      in cache_Expire s2 userID)"

text \<open>
  \<open>BatchAddToTimeline\<close> queues three commands for each user and executes the pipeline; the
  store runs the queued commands in order.
\<close>

definition BatchAddToTimeline :: "sys \<Rightarrow> uuid list \<Rightarrow> uuid \<Rightarrow> real \<Rightarrow> Time \<Rightarrow> sys" where
  "BatchAddToTimeline s userIDs postID score timestamp =
     (let scoreValue = Unix timestamp
      in foldl (\<lambda>s1 userID.
            cache_Expire
              (cache_ZRemRangeByRank (cache_ZAdd s1 userID scoreValue postID)
                 userID 0 (- MaxTimelineSize - 1)) userID)
          s userIDs)"


text \<open>Decimal digits, for \<open>fmt.Sprintf("%.0f", score)\<close> of a whole number.\<close>

definition digit_char :: "nat \<Rightarrow> char" where
  "digit_char d = ''0123456789'' ! d"

fun digits :: "nat \<Rightarrow> string" where
  "digits n = (if n < 10 then [digit_char n] else digits (n div 10) @ [digit_char (n mod 10)])"

definition Sprintf_0f :: "int \<Rightarrow> string" where
  "Sprintf_0f i = (if i < 0 then CHR ''-'' # digits (nat (- i)) else digits (nat i))"

text \<open>
  \<open>limit\<close> is a Go \<open>int\<close> of 64 bits; \<open>int64(limit + 1)\<close> wraps at the largest value.
\<close>

definition wrap64 :: "int \<Rightarrow> int" where
  "wrap64 i = sint (word_of_int i :: 64 word)"

definition to_item :: "int \<times> uuid \<Rightarrow> TimelineItem" where
  "to_item e = \<lparr>item_PostID = snd e, item_Score = fst e,
                item_Timestamp = fst e * 1000000000\<rparr>"

text \<open>
  \<open>GetTimeline\<close>. \<open>ParseFloat\<close> stands for \<open>strconv.ParseFloat(_, 64)\<close>, with \<open>None\<close> for a
  string it rejects; \<open>now\<close> is the reading of the clock. \<open>results[:limit]\<close> panics for a
  negative \<open>limit\<close>. The loop leaves in \<open>nextCursor\<close> the score of the last item, and the
  empty string when there is none.
\<close>

definition GetTimeline ::
  "(string \<Rightarrow> float64 option) \<Rightarrow> Time \<Rightarrow> sys \<Rightarrow> uuid \<Rightarrow> string \<Rightarrow> int
     \<Rightarrow> error + (TimelineItem list \<times> string \<times> bool)" where
  "GetTimeline ParseFloat now s userID cursor limit =
     (let maxScore0 = Finite (of_int (Unix now));
          maxScore = (if cursor \<noteq> [] then
                        (case ParseFloat cursor of Some score \<Rightarrow> score | None \<Rightarrow> maxScore0)
                      else maxScore0)
      in case ZRevRangeByScoreWithScores (timeline_cache s userID) maxScore
                (wrap64 (limit + 1)) of
           Inl e \<Rightarrow> Inl e
         | Inr results \<Rightarrow>
             if int (length results) > limit then
               (if limit < 0 then Inl SliceBoundsPanic
                else let results1 = take (nat limit) results
                     in Inr (map to_item results1,
                             (if results1 = [] then [] else Sprintf_0f (fst (last results1))),
                             True))
             else Inr (map to_item results,
                       (if results = [] then [] else Sprintf_0f (fst (last results))),
                       False))"

section \<open>Repositories\<close>

text \<open>
  The tables are read and written through the query builder; as for the cache, every query
  is taken to reach the database and to succeed. \<open>OFFSET\<close> and \<open>LIMIT\<close> are taken to be
  written for positive values only, and the rows of a query without \<open>ORDER BY\<close> in table
  order.
\<close>

definition sql_page :: "int \<Rightarrow> int \<Rightarrow> 'a list \<Rightarrow> 'a list" where
  "sql_page offset limit rows =
     (let rows1 = (if offset > 0 then drop (nat offset) rows else rows)
      in if limit > 0 then take (nat limit) rows1 else rows1)"

definition UserRepository_GetByID :: "sys \<Rightarrow> uuid \<Rightarrow> User option" where
  "UserRepository_GetByID s userID = users s userID"

definition UserRepository_Update :: "sys \<Rightarrow> User \<Rightarrow> sys" where
  "UserRepository_Update s user = s\<lparr>users := (users s)(user_ID user \<mapsto> user)\<rparr>"

definition FollowRepository_GetFollowers :: "sys \<Rightarrow> uuid \<Rightarrow> int \<Rightarrow> int \<Rightarrow> User list" where
  "FollowRepository_GetFollowers s userID offset limit =
     sql_page offset limit
       (List.map_filter (\<lambda>row. if snd row = userID then users s (fst row) else None)
          (follows s))"

definition PostRepository_GetByID :: "sys \<Rightarrow> uuid \<Rightarrow> Post option" where
  "PostRepository_GetByID s postID =
     (case posts s postID of
        None \<Rightarrow> None
      | Some post \<Rightarrow> if IsDeleted post then None else Some post)"

definition PostRepository_Delete :: "sys \<Rightarrow> uuid \<Rightarrow> sys" where
  "PostRepository_Delete s postID =
     (case posts s postID of
        None \<Rightarrow> s
      | Some post \<Rightarrow> s\<lparr>posts := (posts s)(postID \<mapsto> post\<lparr>IsDeleted := True\<rparr>)\<rparr>)"

definition TimelineRepository_DeleteByPostID :: "sys \<Rightarrow> uuid \<Rightarrow> sys" where
  "TimelineRepository_DeleteByPostID s postID =
     s\<lparr>timelines := filter (\<lambda>tl. tl_PostID tl \<noteq> postID) (timelines s)\<rparr>"

definition Publish :: "sys \<Rightarrow> event \<Rightarrow> sys" where
  "Publish s ev = s\<lparr>bus := bus s @ [ev]\<rparr>"

section \<open>ActivityService\<close>


definition ActivityDecayFactor :: real where
  "ActivityDecayFactor = 0.9"

definition MaxActivityScore :: real where
  "MaxActivityScore = 1000"

definition getActivityIncrement :: "string \<Rightarrow> real" where
  "getActivityIncrement activityType =
     (if activityType = ''login'' then 5
      else if activityType = ''post'' then 15
      else if activityType = ''like'' then 2
      else if activityType = ''comment'' then 8
      else if activityType = ''share'' then 10
      else if activityType = ''view_feed'' then 1
      else 1)"

text \<open>
  \<open>UpdateUserActivity\<close>, statement by statement: the last-active time is set to \<open>now\<close>
  first, and the decay is computed afterwards from the field just written. \<open>math.Pow\<close> of
  a positive base is \<open>powr\<close>.
\<close>

definition UpdateUserActivity :: "Time \<Rightarrow> sys \<Rightarrow> uuid \<Rightarrow> string \<Rightarrow> error + sys" where
  "UpdateUserActivity now s userID activityType =
     (case UserRepository_GetByID s userID of
        None \<Rightarrow> Inl UserNotFound
      | Some user \<Rightarrow>
          let user1 = user\<lparr>LastActiveAt := Some now, IsOnline := True\<rparr>;
              increment = getActivityIncrement activityType;
              user2 = (case LastActiveAt user1 of
                         Some lastActiveAt \<Rightarrow>
                           let hoursSinceLastActive = Hours (Sub now lastActiveAt);
                               decay = ActivityDecayFactor powr (hoursSinceLastActive / 24)
                           in user1\<lparr>ActivityScore := ActivityScore user1 * decay + increment\<rparr>
                       | None \<Rightarrow> user1\<lparr>ActivityScore := increment\<rparr>);
              user3 = (if ActivityScore user2 > MaxActivityScore
                       then user2\<lparr>ActivityScore := MaxActivityScore\<rparr> else user2);
              s1 = UserRepository_Update s user3;
              s2 = s1\<lparr>user_online := (user_online s1)(userID \<mapsto> ''1'')\<rparr>
          in Inr (s2\<lparr>user_active := (user_active s2)(userID := None)\<rparr>))"

text \<open>
  \<open>GetActiveFollowers\<close>: the cached set if it is not empty, cut to \<open>limit\<close>; otherwise the
  empty list, which is what the unfinished database path returns. Caching an empty list
  writes nothing.
\<close>

definition GetActiveFollowers :: "sys \<Rightarrow> uuid \<Rightarrow> int \<Rightarrow> uuid list" where
  "GetActiveFollowers s userID limit =
     (let cachedFollowers = active_followers s userID
      in if length cachedFollowers > 0 then
           (if int (length cachedFollowers) > limit then take (nat limit) cachedFollowers
            else cachedFollowers)
         else [])"



section \<open>OptimizedFeedService\<close>

definition recordDistributionStatus :: "Time \<Rightarrow> sys \<Rightarrow> uuid \<Rightarrow> uuid \<Rightarrow> string \<Rightarrow> sys" where
  "recordDistributionStatus now s postID authorID status =
     s\<lparr>distribution_status := (distribution_status s)(postID \<mapsto>
          \<lparr>ds_PostID = postID, ds_AuthorID = authorID, Status = status,
           Timestamp = Unix now\<rparr>),
       history := history s @ [SET_status postID status]\<rparr>"

definition distributeForInfluencer :: "Time \<Rightarrow> sys \<Rightarrow> Post \<Rightarrow> User \<Rightarrow> sys" where
  "distributeForInfluencer now s post author =
     (let activeFollowers = GetActiveFollowers s (user_ID author) 1000;
          s1 = (if length activeFollowers > 0
                then BatchAddToTimeline s activeFollowers (post_ID post) (post_Score post)
                       (post_CreatedAt post)
                else s);
          s2 = recordDistributionStatus now s1 (post_ID post) (user_ID author)
                 ''influencer_push_completed''
      in Publish s2 (PostDistributionCompleted (post_ID post) (user_ID author)
                       (length activeFollowers) now))"

definition distributeForRegularUser :: "FeedConfig \<Rightarrow> sys \<Rightarrow> Post \<Rightarrow> User \<Rightarrow> sys" where
  "distributeForRegularUser cfg s post author =
     (let followers = FollowRepository_GetFollowers s (user_ID author) 0 (MaxFeedSize cfg);
          followerIDs = map user_ID followers;
          s1 = (if length followerIDs > 0
                then BatchAddToTimeline s followerIDs (post_ID post) (post_Score post)
                       (post_CreatedAt post)
                else s)
      in AddToTimeline s1 (user_ID author) (post_ID post) (post_Score post)
           (post_CreatedAt post))"

definition distributePostOptimized :: "FeedConfig \<Rightarrow> Time \<Rightarrow> sys \<Rightarrow> Post \<Rightarrow> User \<Rightarrow> sys" where
  "distributePostOptimized cfg now s post author =
     (if Followers author > PushThreshold cfg
      then distributeForInfluencer now s post author
      else distributeForRegularUser cfg s post author)"


section \<open>RecoveryService\<close>

text \<open>\<open>scanKeys\<close> returns the empty list whatever the store holds.\<close>

definition scanKeys :: "sys \<Rightarrow> string \<Rightarrow> uuid list" where
  "scanKeys s pattern = []"

definition checkPostInTimeline :: "sys \<Rightarrow> uuid \<Rightarrow> uuid \<Rightarrow> bool" where
  "checkPostInTimeline s userID postID =
     (case ZScore (timeline_cache s userID) postID of None \<Rightarrow> False | Some sc \<Rightarrow> True)"

definition updateDistributionStatus :: "Time \<Rightarrow> sys \<Rightarrow> uuid \<Rightarrow> string \<Rightarrow> error + sys" where
  "updateDistributionStatus now s key status =
     (case distribution_status s key of
        None \<Rightarrow> Inl RedisError
      | Some distributionStatus \<Rightarrow>
          Inr (s\<lparr>distribution_status := (distribution_status s)(key \<mapsto>
                    distributionStatus\<lparr>Status := status, Timestamp := Unix now\<rparr>),
                 history := history s @ [SET_status key status]\<rparr>))"

definition cache_Delete_status :: "sys \<Rightarrow> uuid \<Rightarrow> sys" where
  "cache_Delete_status s key =
     s\<lparr>distribution_status := (distribution_status s)(key := None),
       history := history s @ [DEL_status key]\<rparr>"

definition recoverInfluencerDistribution :: "Time \<Rightarrow> sys \<Rightarrow> Post \<Rightarrow> User \<Rightarrow> sys" where
  "recoverInfluencerDistribution now s post author =
     (let activeFollowers = GetActiveFollowers s (user_ID author) 1000;
          needDistribution =
            filter (\<lambda>followerID. \<not> checkPostInTimeline s followerID (post_ID post))
              activeFollowers;
          s1 = (if length needDistribution > 0
                then BatchAddToTimeline s needDistribution (post_ID post) (post_Score post)
                       (post_CreatedAt post)
                else s)
      in case updateDistributionStatus now s1 (post_ID post) ''influencer_push_completed'' of
           Inl e \<Rightarrow> s1
         | Inr s2 \<Rightarrow> s2)"

definition recoverRegularDistribution :: "Time \<Rightarrow> sys \<Rightarrow> Post \<Rightarrow> User \<Rightarrow> sys" where
  "recoverRegularDistribution now s post author =
     (let followers = FollowRepository_GetFollowers s (user_ID author) 0 10000;
          followerIDs = map user_ID followers;
          needDistribution =
            filter (\<lambda>followerID. \<not> checkPostInTimeline s followerID (post_ID post))
              followerIDs;
          s1 = (if length needDistribution > 0
                then BatchAddToTimeline s needDistribution (post_ID post) (post_Score post)
                       (post_CreatedAt post)
                else s)
      in case updateDistributionStatus now s1 (post_ID post) ''regular_push_completed'' of
           Inl e \<Rightarrow> s1
         | Inr s2 \<Rightarrow> s2)"

text \<open>
  \<open>recoverSingleDistribution\<close>. Reading an absent key is an error of the store. A record
  younger than 300 seconds is left alone.
\<close>

definition recoverSingleDistribution :: "Time \<Rightarrow> sys \<Rightarrow> uuid \<Rightarrow> error + sys" where
  "recoverSingleDistribution now s key =
     (case distribution_status s key of
        None \<Rightarrow> Inl RedisError
      | Some status \<Rightarrow>
          if Unix now - Timestamp status < 300 then Inr s
          else case PostRepository_GetByID s (ds_PostID status) of
                 None \<Rightarrow> Inr (cache_Delete_status s key)
               | Some post \<Rightarrow>
                   (case UserRepository_GetByID s (ds_AuthorID status) of
                      None \<Rightarrow> Inr (cache_Delete_status s key)
                    | Some author \<Rightarrow>
                        if Status status = ''influencer_push_started''
                        then Inr (recoverInfluencerDistribution now s post author)
                        else if Status status = ''regular_push_started''
                        then Inr (recoverRegularDistribution now s post author)
                        else Inr (cache_Delete_status s key)))"

definition RecoverPendingDistributions :: "Time \<Rightarrow> sys \<Rightarrow> error + sys" where
  "RecoverPendingDistributions now s =
     (let keys = scanKeys s ''distribution_status:*''
      in Inr (foldl (\<lambda>s1 key. case recoverSingleDistribution now s1 key of
                                  Inl e \<Rightarrow> s1
                                | Inr s2 \<Rightarrow> s2) s keys))"

section \<open>FeedService\<close>

text \<open>
  \<open>DeletePost\<close>. \<open>Parse\<close> and \<open>String\<close> stand for \<open>uuid.Parse\<close> (\<open>None\<close> for a string it
  rejects) and \<open>uuid.String\<close>. The owner check compares strings. \<open>clearFeedCache\<close> does
  nothing. The result is the state the call leaves behind, with the error it returns, if
  any.
\<close>

definition DeletePost ::
  "(string \<Rightarrow> uuid option) \<Rightarrow> (uuid \<Rightarrow> string) \<Rightarrow> Time \<Rightarrow> sys \<Rightarrow> string \<Rightarrow> string
     \<Rightarrow> sys \<times> error option" where
  "DeletePost Parse String now s userID postID =
     (case Parse postID of
        None \<Rightarrow> (s, Some InvalidPostID)
      | Some postUUID \<Rightarrow>
          (case PostRepository_GetByID s postUUID of
             None \<Rightarrow> (s, Some PostNotFound)
           | Some post \<Rightarrow>
               if String (post_UserID post) \<noteq> userID then (s, Some PermissionDenied)
               else let s1 = PostRepository_Delete s postUUID;
                        s2 = TimelineRepository_DeleteByPostID s1 postUUID
                    in (Publish s2 (PostDeleted postID userID now), None)))"

section \<open>Auxiliary notions\<close>

text \<open>
  The effect on one sorted set of adding an entry and trimming to the cap, and the commands
  a batch queues for one user.
\<close>

definition add_entry :: "zset \<Rightarrow> int \<Rightarrow> uuid \<Rightarrow> zset" where
  "add_entry z sc m = (let z1 = ZAdd z sc m in drop (length z1 - 1000) z1)"

definition batch_step :: "uuid \<Rightarrow> int \<Rightarrow> sys \<Rightarrow> uuid \<Rightarrow> sys" where
  "batch_step p sv s1 userID =
     cache_Expire
       (cache_ZRemRangeByRank (cache_ZAdd s1 userID sv p) userID 0 (- MaxTimelineSize - 1))
       userID"

text \<open>The formula of the specification for the activity score after an update.\<close>

definition spec_activity_score :: "real \<Rightarrow> real \<Rightarrow> string \<Rightarrow> real" where
  "spec_activity_score s dhours kind =
     min MaxActivityScore (s * ActivityDecayFactor powr (dhours / 24) + getActivityIncrement kind)"

text \<open>
  The bound \<open>GetTimeline\<close> computes from the cursor, and the page it returns for a bound:
  the items shown, the next cursor and the flag.
\<close>

definition resolve_cursor :: "(string \<Rightarrow> float64 option) \<Rightarrow> Time \<Rightarrow> string \<Rightarrow> float64" where
  "resolve_cursor ParseFloat now cursor =
     (if cursor \<noteq> [] then
        (case ParseFloat cursor of Some score \<Rightarrow> score | None \<Rightarrow> Finite (of_int (Unix now)))
      else Finite (of_int (Unix now)))"

definition page :: "zset \<Rightarrow> float64 \<Rightarrow> int \<Rightarrow> TimelineItem list \<times> string \<times> bool" where
  "page z mx n =
     (let hits = filter (\<lambda>e. below_excl mx (fst e)) (rev z);
          shown = take (nat n) hits
      in (map to_item shown, (if shown = [] then [] else Sprintf_0f (fst (last shown))),
          n < int (length hits)))"

text \<open>The owners whose timelines \<open>distributePostOptimized\<close> writes.\<close>

definition targets :: "FeedConfig \<Rightarrow> sys \<Rightarrow> User \<Rightarrow> uuid list" where
  "targets cfg s author =
     (if Followers author > PushThreshold cfg
      then GetActiveFollowers s (user_ID author) 1000
      else map user_ID
             (FollowRepository_GetFollowers s (user_ID author) 0 (MaxFeedSize cfg))
           @ [user_ID author])"

section \<open>Example states\<close>

definition sys0 :: sys where
  "sys0 = \<lparr>users = Map.empty, posts = Map.empty, follows = [], timelines = [],
           timeline_cache = (\<lambda>u. []), distribution_status = Map.empty,
           active_followers = (\<lambda>u. []), user_online = Map.empty, user_active = Map.empty,
           history = [], bus = []\<rparr>"

definition mk_user :: "uuid \<Rightarrow> int \<Rightarrow> Time option \<Rightarrow> real \<Rightarrow> User" where
  "mk_user uid n t a = \<lparr>user_ID = uid, Followers = n, Following = 0, LastActiveAt = t,
                         ActivityScore = a, IsOnline = False\<rparr>"

definition mk_post :: "uuid \<Rightarrow> uuid \<Rightarrow> Time \<Rightarrow> Post" where
  "mk_post pid uid t = \<lparr>post_ID = pid, post_UserID = uid, Content = ''hi'', post_Score = 1,
                         IsDeleted = False, post_CreatedAt = t\<rparr>"

definition cfg0 :: FeedConfig where
  "cfg0 = \<lparr>PushThreshold = 5000, MaxFeedSize = 1000\<rparr>"

text \<open>One day, in nanoseconds.\<close>

definition day :: Time where
  "day = 86400000000000"

text \<open>User 1 was last active at time 0 with activity score 100.\<close>

definition sys_activity :: sys where
  "sys_activity = sys0\<lparr>users := [1 \<mapsto> mk_user 1 0 (Some 0) 100]\<rparr>"

text \<open>
  Author 1 with the single follower 2; author 3, an influencer, whose cached set of active
  followers is empty; author 5, an influencer with the active follower 2.
\<close>

definition sys_follow :: sys where
  "sys_follow = sys0\<lparr>users := [1 \<mapsto> mk_user 1 1 None 0, 2 \<mapsto> mk_user 2 0 None 0,
                                  3 \<mapsto> mk_user 3 6000 None 0, 5 \<mapsto> mk_user 5 6000 None 0],
                        follows := [(2, 1)],
                        active_followers := (\<lambda>u. if u = 5 then [2] else [])\<rparr>"

text \<open>
  The same, after a crash of the fan-out of post 7 by author 1: the post is stored, a
  record \<open>regular_push_started\<close> written at second 0 is left, and no timeline holds the
  post.
\<close>

definition sys_crashed :: sys where
  "sys_crashed = sys_follow\<lparr>posts := [7 \<mapsto> mk_post 7 1 0],
                              distribution_status := [7 \<mapsto>
                                \<lparr>ds_PostID = 7, ds_AuthorID = 1,
                                 Status = ''regular_push_started'', Timestamp = 0\<rparr>]\<rparr>"

text \<open>A timeline at the cap: a thousand entries, with scores and members 1 to 1000.\<close>

definition full_timeline :: zset where
  "full_timeline = map (\<lambda>i. (int i, of_nat i)) [1..<1001]"

definition sys_full :: sys where
  "sys_full = sys_follow\<lparr>timeline_cache := (\<lambda>u. if u = 2 then full_timeline else [])\<rparr>"

text \<open>A parser for two cursors, and the two functions on a tiny id space, for the examples.\<close>

definition parse_example :: "string \<Rightarrow> float64 option" where
  "parse_example c = (if c = ''10'' then Some (Finite 10)
                      else if c = ''NaN'' then Some NaN else None)"

definition uuid_Parse_example :: "string \<Rightarrow> uuid option" where
  "uuid_Parse_example c = (if c = ''u1'' then Some 1 else if c = ''p7'' then Some 7 else None)"

definition uuid_String_example :: "uuid \<Rightarrow> string" where
  "uuid_String_example u = (if u = 1 then ''u1'' else if u = 7 then ''p7'' else ''other'')"

definition sys_posts :: sys where
  "sys_posts = sys_follow\<lparr>posts := [7 \<mapsto> mk_post 7 1 0],
                            timelines := [\<lparr>tl_UserID = 2, tl_PostID = 7, tl_Score = 1,
                                           tl_CreatedAt = 0\<rparr>],
                            timeline_cache := (\<lambda>u. if u = 2 then [(3, 8), (5, 9)] else [])\<rparr>"

text \<open>The same state after the fan-out of post 7 by its author 1 to follower 2.\<close>

definition sys_fanned :: sys where
  "sys_fanned = distributePostOptimized cfg0 day sys_posts (mk_post 7 1 0) (mk_user 1 1 None 0)"

section \<open>Evaluation of the examples\<close>

lemmas example_defs =
  sys_crashed_def sys_follow_def sys_activity_def sys_posts_def sys0_def mk_user_def
  mk_post_def cfg0_def day_def

lemmas cache_defs =
  BatchAddToTimeline_def AddToTimeline_def cache_ZAdd_def cache_ZRemRangeByRank_def
  cache_Expire_def ZAdd_def ZRemRangeByRank_def MaxTimelineSize_def Unix_def

section \<open>Sorted sets: the invariant and the capped insertion\<close>
lemma trim_eq: "ZRemRangeByRank z 0 (- MaxTimelineSize - 1) = drop (length z - 1000) z"
  by (auto simp: ZRemRangeByRank_def MaxTimelineSize_def Let_def nat_diff_distrib')

lemma distinct_map_insort:
  "distinct (map g (insort_key f x xs)) = distinct (map g (x # xs))"
  by (induction xs) (auto simp: set_insort_key)

lemma zset_inv_ZAdd: "zset_inv z \<Longrightarrow> zset_inv (ZAdd z sc m)"
  unfolding zset_inv_def ZAdd_def
  by (auto simp: sorted_insort sorted_wrt_filter distinct_map_insort distinct_map_filter)

lemma zset_inv_drop: "zset_inv z \<Longrightarrow> zset_inv (drop k z)"
  unfolding zset_inv_def
  by (auto simp: sorted_wrt_drop drop_map[symmetric])

lemma tc_AddToTimeline:
  "timeline_cache (AddToTimeline s u p sc ts) =
     (timeline_cache s)(u := add_entry (timeline_cache s u) (Unix ts) p)"
  by (simp add: AddToTimeline_def cache_ZAdd_def cache_ZRemRangeByRank_def cache_Expire_def
        Let_def trim_eq add_entry_def)

lemma set_ZAdd: "set (ZAdd z sc m) = insert (sc, m) {e \<in> set z. snd e \<noteq> m}"
  by (auto simp: ZAdd_def set_insort_key)

lemma length_ZAdd: "length (ZAdd z sc m) = Suc (length (filter (\<lambda>e. snd e \<noteq> m) z))"
  by (simp add: ZAdd_def)

lemma ZAdd_member_unique: "e \<in> set (ZAdd z sc m) \<Longrightarrow> snd e = m \<Longrightarrow> e = (sc, m)"
  by (auto simp: set_ZAdd)

lemma filter_member_ZAdd: "filter (\<lambda>e. snd e = m) (ZAdd z sc m) = [(sc, m)]"
  unfolding ZAdd_def
  by (induction z) (auto simp: filter_insort_triv )



lemma filter_key_remove1:
  "distinct (map snd D) \<Longrightarrow> x \<in> set D \<Longrightarrow> filter (\<lambda>e. snd e \<noteq> snd x) D = remove1 x D"
proof (induction D)
  case Nil
  then show ?case by simp
next
  case (Cons a D)
  show ?case
  proof (cases "a = x")
    case True
    with Cons.prems have "\<forall>e\<in>set D. snd e \<noteq> snd x" by (auto simp: image_iff)
    then have "filter (\<lambda>e. snd e \<noteq> snd x) D = D" by (simp add: filter_id_conv)
    with True show ?thesis by simp
  next
    case False
    with Cons.prems have "x \<in> set D" by simp
    with Cons.prems have "snd a \<noteq> snd x" by (auto simp: image_iff)
    with Cons False \<open>x \<in> set D\<close> show ?thesis by simp
  qed
qed

lemma add_entry_idem:
  assumes "zset_inv z"
  shows "add_entry (add_entry z sc m) sc m = add_entry z sc m"
proof -
  define L where "L = ZAdd z sc m"
  define k where "k = length L - 1000"
  define D where "D = drop k L"
  define x where "x = (sc, m)"
  have invL: "sorted L" "distinct (map snd L)"
    using zset_inv_ZAdd[OF assms, of sc m] by (simp_all add: L_def zset_inv_def)
  have invD: "sorted D" "distinct (map snd D)"
    using zset_inv_drop[of L k] invL by (simp_all add: D_def zset_inv_def)
  have xL: "x \<in> set L" by (simp add: L_def x_def set_ZAdd)
  have uniq: "\<And>e. e \<in> set L \<Longrightarrow> snd e = m \<Longrightarrow> e = x"
    using ZAdd_member_unique by (simp add: L_def x_def)
  have lenD: "length D \<le> 1000" by (simp add: D_def k_def)
  have D_eq: "add_entry z sc m = D" by (simp add: add_entry_def L_def D_def k_def Let_def)
  have "drop (length (ZAdd D sc m) - 1000) (ZAdd D sc m) = D"
  proof (cases "x \<in> set D")
    case True
    then have "filter (\<lambda>e. snd e \<noteq> m) D = remove1 x D"
      using filter_key_remove1[OF invD(2), of x] by (simp add: x_def)
    then have "ZAdd D sc m = D"
      using insort_remove1[OF True invD(1)] by (simp add: ZAdd_def x_def)
    with lenD show ?thesis by simp
  next
    case False
    have "\<forall>e\<in>set D. snd e \<noteq> m"
    proof
      fix e assume e: "e \<in> set D"
      then have "e \<in> set L" by (auto simp: D_def dest: in_set_dropD)
      with uniq[of e] e False show "snd e \<noteq> m" by auto
    qed
    then have filt: "filter (\<lambda>e. snd e \<noteq> m) D = D" by (simp add: filter_id_conv)
    have split: "L = take k L @ D" by (simp add: D_def)
    have xin: "x \<in> set (take k L)"
      using xL False split by (metis Un_iff set_append)
    then have kpos: "0 < k" by (cases k) auto
    have "sorted (take k L @ D)" using invL(1) split by simp
    then have "\<forall>d\<in>set D. x \<le> d" using xin by (auto simp: sorted_append)
    then have ins: "insort x D = x # D" by (simp add: insort_is_Cons)
    from kpos have "length L > 1000" by (simp add: k_def)
    then have "length D = 1000" by (simp add: D_def k_def)
    with ins filt show ?thesis by (simp add: ZAdd_def x_def)
  qed
  then have "add_entry D sc m = D" by (simp add: add_entry_def Let_def)
  then show ?thesis by (simp add: D_eq)
qed

lemma zset_inv_add_entry: "zset_inv z \<Longrightarrow> zset_inv (add_entry z sc m)"
  by (simp add: add_entry_def Let_def zset_inv_drop zset_inv_ZAdd)

lemma length_add_entry: "length (add_entry z sc m) \<le> 1000"
  by (simp add: add_entry_def Let_def)

lemma tc_batch_step:
  "timeline_cache (batch_step p sv s u) = (timeline_cache s)(u := add_entry (timeline_cache s u) sv p)"
  by (simp add: batch_step_def cache_ZAdd_def cache_ZRemRangeByRank_def cache_Expire_def
        Let_def trim_eq add_entry_def)

lemma tc_foldl_batch:
  "zset_inv (timeline_cache s u) \<Longrightarrow>
   timeline_cache (foldl (batch_step p sv) s us) u =
     (if u \<in> set us then add_entry (timeline_cache s u) sv p else timeline_cache s u)"
proof (induction us arbitrary: s)
  case Nil
  then show ?case by simp
next
  case (Cons a us)
  have inv': "zset_inv (timeline_cache (batch_step p sv s a) u)"
    using Cons.prems by (auto simp: tc_batch_step zset_inv_add_entry)
  show ?case
    using Cons.IH[OF inv'] Cons.prems
    by (auto simp: tc_batch_step add_entry_idem)
qed

lemma tc_BatchAddToTimeline:
  "zset_inv (timeline_cache s u) \<Longrightarrow>
   timeline_cache (BatchAddToTimeline s us p sc ts) u =
     (if u \<in> set us then add_entry (timeline_cache s u) (Unix ts) p else timeline_cache s u)"
  using tc_foldl_batch[of s u p "Unix ts" us]
  by (simp add: BatchAddToTimeline_def batch_step_def[abs_def] Let_def)

section \<open>The capped insertion: presence of the entry\<close>

lemma insort_split:
  "sorted xs \<Longrightarrow> insort x xs = filter (\<lambda>e. e < x) xs @ x # filter (\<lambda>e. \<not> e < x) xs"
proof (induction xs)
  case Nil
  then show ?case by simp
next
  case (Cons a xs)
  show ?case
  proof (cases "x \<le> a")
    case True
    then have "\<forall>e\<in>set (a # xs). \<not> e < x" using Cons.prems by auto
    then have "filter (\<lambda>e. e < x) (a # xs) = []" "filter (\<lambda>e. \<not> e < x) (a # xs) = a # xs"
      by (simp_all add: filter_empty_conv filter_id_conv)
    with True show ?thesis by simp
  next
    case False
    then have "a < x" by simp
    with Cons False show ?thesis by simp
  qed
qed

lemma filter_member_add_entry:
  assumes "zset_inv z"
  shows "filter (\<lambda>e. snd e = m) (add_entry z sc m) =
           (if length (filter (\<lambda>e. snd e \<noteq> m \<and> (sc, m) < e) z) < 1000 then [(sc, m)] else [])"
proof -
  define F where "F = filter (\<lambda>e. snd e \<noteq> m) z"
  define A where "A = filter (\<lambda>e. e < (sc, m)) F"
  define B where "B = filter (\<lambda>e. \<not> e < (sc, m)) F"
  define k where "k = length (ZAdd z sc m) - 1000"
  have sF: "sorted F" using assms by (simp add: F_def zset_inv_def sorted_wrt_filter)
  have L: "ZAdd z sc m = A @ (sc, m) # B"
    using insort_split[OF sF, of "(sc, m)"] by (simp add: ZAdd_def F_def A_def B_def)
  have noA: "filter (\<lambda>e. snd e = m) A = []" and noB: "filter (\<lambda>e. snd e = m) B = []"
    by (auto simp: A_def B_def F_def filter_empty_conv)
  have Beq: "B = filter (\<lambda>e. snd e \<noteq> m \<and> (sc, m) < e) z"
    unfolding B_def F_def filter_filter
    by (rule filter_cong) auto
  have noDropA: "filter (\<lambda>e. snd e = m) (drop j A) = []" for j
    using noA by (auto simp: filter_empty_conv dest: in_set_dropD)
  have noDropB: "filter (\<lambda>e. snd e = m) (drop j B) = []" for j
    using noB by (auto simp: filter_empty_conv dest: in_set_dropD)
  have ae: "add_entry z sc m = drop k (A @ (sc, m) # B)"
    by (simp add: add_entry_def Let_def k_def L)
  show ?thesis
  proof (cases "length B < 1000")
    case True
    then have "k \<le> length A" by (simp add: k_def L)
    then have "drop k (A @ (sc, m) # B) = drop k A @ (sc, m) # B" by simp
    with True show ?thesis by (simp add: ae noDropA noB Beq[symmetric])
  next
    case False
    then have "k \<ge> Suc (length A)" by (simp add: k_def L)
    then have "drop k (A @ (sc, m) # B) = drop (k - Suc (length A)) B"
      by (simp add: drop_Cons')
    with False show ?thesis by (simp add: ae noDropB Beq[symmetric])
  qed
qed

lemma length_filter_member_le1:
  "distinct (map snd z) \<Longrightarrow> length (filter (\<lambda>e. snd e = q) z) \<le> 1"
proof (induction z)
  case Nil
  then show ?case by simp
next
  case (Cons a z)
  then show ?case
  proof (cases "snd a = q")
    case True
    with Cons.prems have "\<forall>e\<in>set z. snd e \<noteq> q" by (auto simp: image_iff)
    then have "filter (\<lambda>e. snd e = q) z = []" by (simp add: filter_empty_conv)
    with True show ?thesis by simp
  next
    case False
    with Cons show ?thesis by simp
  qed
qed

section \<open>What the batch and the distributor write\<close>

lemma BatchAdd_foldl:
  "BatchAddToTimeline s us p sc ts = foldl (batch_step p (Unix ts)) s us"
  by (simp add: BatchAddToTimeline_def batch_step_def[abs_def] Let_def)

lemma frame_batch_step:
  "users (batch_step p sv s u) = users s \<and> follows (batch_step p sv s u) = follows s \<and>
   active_followers (batch_step p sv s u) = active_followers s \<and>
   posts (batch_step p sv s u) = posts s \<and>
   distribution_status (batch_step p sv s u) = distribution_status s"
  by (simp add: batch_step_def cache_ZAdd_def cache_ZRemRangeByRank_def cache_Expire_def)

lemma frame_foldl_batch:
  "users (foldl (batch_step p sv) s us) = users s \<and>
   follows (foldl (batch_step p sv) s us) = follows s \<and>
   active_followers (foldl (batch_step p sv) s us) = active_followers s \<and>
   posts (foldl (batch_step p sv) s us) = posts s \<and>
   distribution_status (foldl (batch_step p sv) s us) = distribution_status s"
  by (induction us arbitrary: s) (simp_all add: frame_batch_step)

lemma AddToTimeline_batch_step: "AddToTimeline s u p sc ts = batch_step p (Unix ts) s u"
  by (simp add: AddToTimeline_def batch_step_def Let_def)

lemma history_foldl_batch:
  "history (foldl (batch_step p sv) s us) =
     history s @ concat (map (\<lambda>u. [ZADD u sv p, ZREMRANGEBYRANK u 0 (- MaxTimelineSize - 1)]) us)"
  by (induction us arbitrary: s)
     (simp_all add: batch_step_def cache_ZAdd_def cache_ZRemRangeByRank_def cache_Expire_def)

lemma history_BatchAddToTimeline:
  "history (BatchAddToTimeline s us p sc ts) =
     history s @ concat (map (\<lambda>u. [ZADD u (Unix ts) p, ZREMRANGEBYRANK u 0 (- MaxTimelineSize - 1)]) us)"
  by (simp add: BatchAdd_foldl history_foldl_batch)

lemma history_AddToTimeline:
  "history (AddToTimeline s u p sc ts) =
     history s @ [ZADD u (Unix ts) p, ZREMRANGEBYRANK u 0 (- MaxTimelineSize - 1)]"
  by (simp add: AddToTimeline_def cache_ZAdd_def cache_ZRemRangeByRank_def cache_Expire_def Let_def)

lemma status_foldl_batch:
  "distribution_status (foldl (batch_step p sv) s us) = distribution_status s"
  by (induction us arbitrary: s)
     (simp_all add: batch_step_def cache_ZAdd_def cache_ZRemRangeByRank_def cache_Expire_def)

lemma distributeForRegularUser_writes_no_status:
  "distribution_status (distributeForRegularUser cfg s post author) = distribution_status s \<and>
   (SET_status k st \<in> set (history (distributeForRegularUser cfg s post author))
      \<longleftrightarrow> SET_status k st \<in> set (history s))"
  by (auto simp: distributeForRegularUser_def Let_def history_AddToTimeline
        history_BatchAddToTimeline)
     (simp_all add: AddToTimeline_def cache_ZAdd_def cache_ZRemRangeByRank_def cache_Expire_def
        Let_def BatchAdd_foldl status_foldl_batch)

lemma distributeForInfluencer_history:
  "history (distributeForInfluencer now s post author) =
     history s @
     concat (map (\<lambda>u. [ZADD u (Unix (post_CreatedAt post)) (post_ID post),
                        ZREMRANGEBYRANK u 0 (- MaxTimelineSize - 1)])
               (GetActiveFollowers s (user_ID author) 1000)) @
     [SET_status (post_ID post) ''influencer_push_completed'']"
  by (simp add: distributeForInfluencer_def Let_def recordDistributionStatus_def Publish_def
        history_BatchAddToTimeline)

lemma distribute_as_fold:
  "timeline_cache (distributePostOptimized cfg now s post author) =
   timeline_cache (foldl (batch_step (post_ID post) (Unix (post_CreatedAt post))) s
      (targets cfg s author))"
  by (simp add: distributePostOptimized_def distributeForInfluencer_def
        distributeForRegularUser_def targets_def Let_def BatchAdd_foldl AddToTimeline_batch_step
        recordDistributionStatus_def Publish_def)

lemma frame_distribute:
  "users (distributePostOptimized cfg now s post author) = users s \<and>
   follows (distributePostOptimized cfg now s post author) = follows s \<and>
   active_followers (distributePostOptimized cfg now s post author) = active_followers s"
  by (simp add: distributePostOptimized_def distributeForInfluencer_def
        distributeForRegularUser_def Let_def BatchAdd_foldl AddToTimeline_batch_step
        recordDistributionStatus_def Publish_def frame_foldl_batch frame_batch_step)

lemma targets_distribute:
  "targets cfg (distributePostOptimized cfg now s post author) author' = targets cfg s author'"
  by (simp add: targets_def GetActiveFollowers_def FollowRepository_GetFollowers_def
        frame_distribute cong: if_cong)

lemma tc_distribute:
  assumes "zset_inv (timeline_cache s v)"
  shows "timeline_cache (distributePostOptimized cfg now s post author) v =
     (if v \<in> set (targets cfg s author)
      then add_entry (timeline_cache s v) (Unix (post_CreatedAt post)) (post_ID post)
      else timeline_cache s v)"
  by (simp only: distribute_as_fold tc_foldl_batch[OF assms])

lemma inv_distribute:
  "zset_inv (timeline_cache s v) \<Longrightarrow>
   zset_inv (timeline_cache (distributePostOptimized cfg now s post author) v)"
  by (simp add: tc_distribute zset_inv_add_entry)

lemma distribute_twice:
  assumes "zset_inv (timeline_cache s v)"
  shows "timeline_cache (distributePostOptimized cfg now'
            (distributePostOptimized cfg now s post author) post author) v =
         timeline_cache (distributePostOptimized cfg now s post author) v"
  using assms
  by (simp add: tc_distribute[OF inv_distribute[OF assms]] targets_distribute
        tc_distribute add_entry_idem)

lemma funpow_idem:
  assumes step: "\<And>x. I x \<Longrightarrow> I (f x) \<and> g (f (f x)) = g (f x)" and "I x"
  shows "g ((f ^^ Suc n) x) = g (f x)"
  using \<open>I x\<close>
proof (induction n arbitrary: x)
  case 0
  then show ?case by simp
next
  case (Suc n)
  have "(f ^^ Suc (Suc n)) x = (f ^^ Suc n) (f x)"
    by (simp only: funpow_Suc_right o_apply)
  moreover have "I (f x)" using step Suc.prems by blast
  ultimately show ?case using Suc.IH[of "f x"] step[OF Suc.prems] by simp
qed

lemma tc_AddToTimeline_at:
  "timeline_cache (AddToTimeline s u p sc ts) v =
     (if v = u then add_entry (timeline_cache s u) (Unix ts) p else timeline_cache s v)"
  by (simp add: tc_AddToTimeline)

lemma Add_step:
  "(\<forall>v. zset_inv (timeline_cache x v)) \<Longrightarrow>
   (\<forall>v. zset_inv (timeline_cache (AddToTimeline x u p sc ts) v)) \<and>
   timeline_cache (AddToTimeline (AddToTimeline x u p sc ts) u p sc ts) =
     timeline_cache (AddToTimeline x u p sc ts)"
  by (auto simp: tc_AddToTimeline zset_inv_add_entry add_entry_idem)

lemma Batch_step:
  assumes "\<forall>v. zset_inv (timeline_cache x v)"
  shows "(\<forall>v. zset_inv (timeline_cache (BatchAddToTimeline x us p sc ts) v)) \<and>
   timeline_cache (BatchAddToTimeline (BatchAddToTimeline x us p sc ts) us p sc ts) =
     timeline_cache (BatchAddToTimeline x us p sc ts)"
proof -
  have inv: "\<forall>v. zset_inv (timeline_cache (BatchAddToTimeline x us p sc ts) v)"
    using assms by (simp add: tc_BatchAddToTimeline zset_inv_add_entry)
  have "timeline_cache (BatchAddToTimeline (BatchAddToTimeline x us p sc ts) us p sc ts) v =
     timeline_cache (BatchAddToTimeline x us p sc ts) v" for v
    using assms inv by (simp add: tc_BatchAddToTimeline add_entry_idem)
  with inv show ?thesis by auto
qed

lemma distribute_step:
  assumes "\<forall>v. zset_inv (timeline_cache x v)"
  shows "(\<forall>v. zset_inv (timeline_cache (distributePostOptimized cfg now x post author) v)) \<and>
   timeline_cache (distributePostOptimized cfg now
       (distributePostOptimized cfg now x post author) post author) =
     timeline_cache (distributePostOptimized cfg now x post author)"
  using assms by (auto simp: inv_distribute distribute_twice)

section \<open>The timeline at the cap\<close>

lemma zset_inv_full_timeline: "zset_inv full_timeline"
proof -
  have "sorted_wrt (\<lambda>i j. (int i, (of_nat i :: uuid)) \<le> (int j, of_nat j)) [1..<1001]"
    by (rule sorted_wrt_mono_rel[OF _ sorted_wrt_upt]) (simp add: less_eq_prod_def)
  then have s: "sorted full_timeline"
    by (simp add: full_timeline_def sorted_wrt_map)
  have "inj_on (\<lambda>i. (of_nat i :: uuid)) {1..<1001}"
  proof (rule inj_onI)
    fix x y :: nat assume "x \<in> {1..<1001}" "y \<in> {1..<1001}" "(of_nat x :: uuid) = of_nat y"
    then have "take_bit 128 x = take_bit 128 y" by (simp add: word_of_nat_eq_iff)
    moreover have "x < 2 ^ 128" "y < 2 ^ 128" using \<open>x \<in> _\<close> \<open>y \<in> _\<close> by auto
    ultimately show "x = y" by (simp add: take_bit_nat_eq_self)
  qed
  then have "distinct (map snd full_timeline)"
    by (simp add: full_timeline_def o_def distinct_map)
  with s show ?thesis by (simp add: zset_inv_def)
qed

lemma full_timeline_above:
  "e \<in> set full_timeline \<Longrightarrow> snd e \<noteq> 2000 \<and> (0, 2000) < e"
proof -
  assume "e \<in> set full_timeline"
  then obtain i where i: "1 \<le> i" "i < 1001" "e = (int i, of_nat i)"
    by (auto simp: full_timeline_def)
  have "unat (of_nat i :: uuid) = i"
    using i by (simp add: unsigned_of_nat take_bit_nat_eq_self)
  moreover have "unat (2000 :: uuid) = 2000" by simp
  ultimately have "(of_nat i :: uuid) \<noteq> 2000" using i by auto
  then show ?thesis using i by (simp add: less_prod_def)
qed

lemma targets_sys_full: "targets cfg0 sys_full (mk_user 1 1 None 0) = [2, 1]"
  by (simp add: targets_def FollowRepository_GetFollowers_def sql_page_def List.map_filter_def
        sys_full_def sys_follow_def sys0_def mk_user_def cfg0_def)

section \<open>The page returned by GetTimeline\<close>

lemma wrap64_id: "- 9223372036854775808 \<le> i \<Longrightarrow> i < 9223372036854775808 \<Longrightarrow> wrap64 i = i"
  by (simp add: wrap64_def int_word_sint)

lemma wrap64_max: "wrap64 9223372036854775808 = - 9223372036854775808"
  by (simp add: wrap64_def)

lemma Sprintf_f_int: "Sprintf_f (of_int c) = of_int c"
  by (simp add: Sprintf_f_def Let_def)

lemma below_excl_int [simp]: "below_excl (Finite (of_int c)) sc \<longleftrightarrow> sc < c"
  by (simp add: Sprintf_f_int)

lemma GetTimeline_page:
  assumes mx: "resolve_cursor ParseFloat now cursor \<noteq> NaN"
    and n: "0 \<le> n" "n \<le> 9223372036854775807"
    and len: "int (length (timeline_cache s u)) \<le> 9223372036854775807"
  shows "GetTimeline ParseFloat now s u cursor n =
           Inr (page (timeline_cache s u) (resolve_cursor ParseFloat now cursor) n)"
proof -
  define mxv where "mxv = resolve_cursor ParseFloat now cursor"
  define hits where "hits = filter (\<lambda>e. below_excl mxv (fst e)) (rev (timeline_cache s u))"
  have lh: "int (length hits) \<le> 9223372036854775807"
  proof -
    have "length hits \<le> length (timeline_cache s u)"
      unfolding hits_def by (metis length_filter_le length_rev)
    with len show ?thesis by linarith
  qed
  show ?thesis
  proof (cases "n = 9223372036854775807")
    case True
    then have w: "wrap64 (n + 1) = - 9223372036854775808" by (simp add: wrap64_max)
    have nl: "\<not> n < int (length hits)" using lh True by simp
    then have tk: "take (nat n) hits = hits" by simp
    show ?thesis
      using mx nl tk w True
      unfolding GetTimeline_def page_def ZRevRangeByScoreWithScores_def
      by (simp add: Let_def resolve_cursor_def[symmetric] mxv_def[symmetric] hits_def[symmetric])
  next
    case False
    with n have w: "wrap64 (n + 1) = n + 1" by (simp add: wrap64_id)
    have pos: "0 < n + 1" using n by simp
    have tt: "take (nat n) (take (nat (n + 1)) hits) = take (nat n) hits"
      using n by (simp add: min_def)
    have lt: "n < int (length (take (nat (n + 1)) hits)) \<longleftrightarrow> n < int (length hits)"
      using n by auto
    have small: "\<not> n < int (length hits) \<Longrightarrow> take (nat (n + 1)) hits = hits \<and> take (nat n) hits = hits"
      by simp
    show ?thesis
      using mx w pos tt lt small n
      unfolding GetTimeline_def page_def ZRevRangeByScoreWithScores_def
      by (simp add: Let_def resolve_cursor_def[symmetric] mxv_def[symmetric] hits_def[symmetric])
  qed
qed

section \<open>Further facts on pages, rebuilt timelines and the examples\<close>

lemma to_item_sel [simp]:
  "item_Score (to_item e) = fst e" "item_PostID (to_item e) = snd e"
  by (simp_all add: to_item_def)

lemma desc_scores:
  assumes "sorted z"
  shows "sorted (rev (map fst (take k (filter P (rev z)))))"
proof -
  have "sorted_wrt (\<lambda>a b. fst a \<le> fst b) z"
    by (rule sorted_wrt_mono_rel[OF _ assms]) (auto simp: less_eq_prod_def)
  then have "sorted_wrt (\<lambda>a b. fst b \<le> fst a) (rev z)"
    by (simp add: sorted_wrt_rev)
  then have "sorted_wrt (\<lambda>a b. fst b \<le> fst a) (take k (filter P (rev z)))"
    by (intro sorted_wrt_take sorted_wrt_filter)
  then show ?thesis
    by (simp add: sorted_wrt_rev sorted_wrt_map)
qed

lemma tc_sys_posts: "timeline_cache sys_posts 2 = [(3, 8), (5, 9)]"
  by (simp add: sys_posts_def sys_follow_def sys0_def)

lemma zset_inv_sys_posts: "zset_inv (timeline_cache sys_posts 2)"
  by (simp add: tc_sys_posts zset_inv_def less_eq_prod_def)

lemma GetTimeline_NaN_cursor:
  "GetTimeline parse_example now s u ''NaN'' n = Inl RedisError"
  by (simp add: GetTimeline_def parse_example_def ZRevRangeByScoreWithScores_def)







lemma inv_sys_posts: "\<forall>v. zset_inv (timeline_cache sys_posts v)"
  by (simp add: sys_posts_def sys_follow_def sys0_def zset_inv_def less_eq_prod_def)

lemma targets_sys_posts: "targets cfg0 sys_posts (mk_user 1 1 None 0) = [2, 1]"
  by (simp add: targets_def FollowRepository_GetFollowers_def sql_page_def List.map_filter_def
        sys_posts_def sys_follow_def sys0_def mk_user_def cfg0_def)



section \<open>The activity score\<close>

text \<open>
  What \<open>UpdateUserActivity\<close> stores for an existing user: the previous score plus the
  increment, capped. The time since the previous activity does not enter, because the
  decay is computed from the last-active time the function has just set to \<open>now\<close>.
\<close>

lemma UpdateUserActivity_stores:
  assumes "users s u = Some user"
  shows "\<exists>s'. UpdateUserActivity now s u kind = Inr s' \<and>
           users s' = (users s)(user_ID user \<mapsto>
              user\<lparr>LastActiveAt := Some now, IsOnline := True,
                   ActivityScore := min MaxActivityScore
                      (ActivityScore user + getActivityIncrement kind)\<rparr>)"
  using assms
  by (auto simp: UpdateUserActivity_def UserRepository_GetByID_def UserRepository_Update_def
        Let_def Sub_def Hours_def ActivityDecayFactor_def min_def)

text \<open>
  C1. A user with score 100, last active one day before the call, logs in. The
  specification's formula gives \<open>100 \<cdot> 0.9 + 5 = 95\<close>; the function stores 105.
\<close>

theorem UpdateUserActivity_ignores_elapsed_time:
  "(case UpdateUserActivity day sys_activity 1 ''login'' of
      Inl e \<Rightarrow> None
    | Inr s' \<Rightarrow> map_option ActivityScore (users s' 1)) = Some 105
   \<and> spec_activity_score 100 (Hours (Sub day 0)) ''login'' = 95"
  by (simp add: UpdateUserActivity_def UserRepository_GetByID_def UserRepository_Update_def
        Let_def Sub_def Hours_def ActivityDecayFactor_def example_defs
        MaxActivityScore_def getActivityIncrement_def spec_activity_score_def)

section \<open>The order of the distributor's writes\<close>

text \<open>
  C2. The claim: no timeline write before a \<open>started\<close> record of the post, and the record
  rewritten to \<open>completed\<close> only after the writes. The commands the distributor issues,
  from an empty history: for the regular author 1 with follower 2, the two timelines are
  written and no distribution record is written at all; for the influencer 5 with the
  active follower 2, the timeline is written first and the only record written is
  \<open>influencer_push_completed\<close>, after it.
\<close>

theorem distribute_writes_without_started_record:
  "history (distributePostOptimized cfg0 day sys_follow (mk_post 7 1 0) (mk_user 1 1 None 0)) =
     [ZADD 2 0 7, ZREMRANGEBYRANK 2 0 (- 1001), ZADD 1 0 7, ZREMRANGEBYRANK 1 0 (- 1001)] \<and>
   distribution_status
     (distributePostOptimized cfg0 day sys_follow (mk_post 7 1 0) (mk_user 1 1 None 0)) 7 = None \<and>
   history (distributePostOptimized cfg0 day sys_follow (mk_post 8 5 0) (mk_user 5 6000 None 0)) =
     [ZADD 2 0 8, ZREMRANGEBYRANK 2 0 (- 1001), SET_status 8 ''influencer_push_completed'']"
  by (simp add: distributePostOptimized_def distributeForRegularUser_def
        distributeForInfluencer_def GetActiveFollowers_def recordDistributionStatus_def
        Publish_def FollowRepository_GetFollowers_def sql_page_def List.map_filter_def
        Let_def example_defs cache_defs)

section \<open>The author's own timeline\<close>

lemma distributeForInfluencer_own_timeline:
  assumes "zset_inv (timeline_cache s (user_ID author))"
    and "user_ID author \<notin> set (GetActiveFollowers s (user_ID author) 1000)"
  shows "timeline_cache (distributeForInfluencer now s post author) (user_ID author) =
           timeline_cache s (user_ID author)"
  using assms
  by (simp add: distributeForInfluencer_def Let_def recordDistributionStatus_def Publish_def
        tc_BatchAddToTimeline)

text \<open>
  C3. The claim: every publish inserts the post into the author's own timeline, also for
  an influencer with no active follower. Author 3 has 6000 followers, above the threshold
  of 5000, and no active follower: after the distribution the author's timeline is empty.
  The same holds for the influencer 5, who has an active follower. For the regular author
  1 the post is in the author's timeline.
\<close>

theorem influencer_post_not_in_own_timeline:
  "Followers (mk_user 3 6000 None 0) > PushThreshold cfg0 \<and>
   GetActiveFollowers sys_follow 3 1000 = [] \<and>
   timeline_cache
     (distributePostOptimized cfg0 day sys_follow (mk_post 7 3 0) (mk_user 3 6000 None 0)) 3 = [] \<and>
   timeline_cache
     (distributePostOptimized cfg0 day sys_follow (mk_post 8 5 0) (mk_user 5 6000 None 0)) 5 = [] \<and>
   timeline_cache
     (distributePostOptimized cfg0 day sys_follow (mk_post 9 1 0) (mk_user 1 1 None 0)) 1 = [(0, 9)]"
  by (simp add: distributePostOptimized_def distributeForRegularUser_def
        distributeForInfluencer_def GetActiveFollowers_def recordDistributionStatus_def
        Publish_def FollowRepository_GetFollowers_def sql_page_def List.map_filter_def
        Let_def example_defs cache_defs)

section \<open>Recovery\<close>

lemma RecoverPendingDistributions_noop: "RecoverPendingDistributions now s = Inr s"
  by (simp add: RecoverPendingDistributions_def scanKeys_def)

text \<open>
  The record left by the crash is recovered when \<open>recoverSingleDistribution\<close> is given its
  key: follower 2 receives post 7 and the record is rewritten.
\<close>

lemma recoverSingleDistribution_sys_crashed:
  "(case recoverSingleDistribution 1000000000000 sys_crashed 7 of
      Inl e \<Rightarrow> False
    | Inr s' \<Rightarrow>
        map_option Status (distribution_status s' 7) = Some ''regular_push_completed'' \<and>
        ZScore (timeline_cache s' 2) 7 = Some 0)"
  by (simp add: recoverSingleDistribution_def recoverRegularDistribution_def
        FollowRepository_GetFollowers_def sql_page_def List.map_filter_def
        PostRepository_GetByID_def UserRepository_GetByID_def Let_def
        example_defs checkPostInTimeline_def ZScore_def cache_defs updateDistributionStatus_def)

text \<open>
  C4. A record \<open>regular_push_started\<close> is 1000 seconds old, and follower 2 of the author
  does not hold post 7. One run of \<open>RecoverPendingDistributions\<close> returns without error and
  changes nothing: the record is still \<open>regular_push_started\<close> with its old timestamp, and
  the follower's timeline still lacks the post, because \<open>scanKeys\<close> finds no key.
\<close>

theorem RecoverPendingDistributions_recovers_nothing:
  "(case RecoverPendingDistributions 1000000000000 sys_crashed of
      Inl e \<Rightarrow> False
    | Inr s' \<Rightarrow>
        Unix 1000000000000 = 1000 \<and>
        map_option Timestamp (distribution_status s' 7) = Some 0 \<and>
        map_option Status (distribution_status s' 7) = Some ''regular_push_started'' \<and>
        map user_ID (FollowRepository_GetFollowers s' 1 0 10000) = [2] \<and>
        ZScore (timeline_cache s' 2) 7 = None)"
  by (simp add: RecoverPendingDistributions_noop)
     (simp add: FollowRepository_GetFollowers_def sql_page_def List.map_filter_def
        example_defs ZScore_def Unix_def)

section \<open>Pagination\<close>

text \<open>
  C5, amended. For a timeline of the store, a cursor that is empty (the bound \<open>c\<close> is then
  the clock's Unix time) or parses to the whole number \<open>c\<close>, and a limit \<open>n\<close> from 0 to the
  largest \<open>int\<close>: \<open>GetTimeline\<close> returns no error; the items are the first \<open>n\<close> of the
  entries with score below \<open>c\<close>, highest first, so each has a score below \<open>c\<close>, the scores
  descend and there are at most \<open>n\<close>; \<open>has_more\<close> holds exactly when at least \<open>n + 1\<close>
  entries have a score below \<open>c\<close>; when no entry qualifies, \<open>has_more\<close> is false and the
  next cursor is empty; when an item is returned, the next cursor is the score of the last
  item, and that is so whenever \<open>n \<ge> 1\<close> and an entry qualifies; when no item is returned
  the next cursor is empty.
\<close>

theorem GetTimeline_pagination:
  assumes inv: "zset_inv (timeline_cache s u)"
    and len: "int (length (timeline_cache s u)) \<le> 9223372036854775807"
    and cur: "cursor = [] \<and> c = Unix now \<or>
              cursor \<noteq> [] \<and> ParseFloat cursor = Some (Finite (of_int c))"
    and n: "0 \<le> n" "n \<le> 9223372036854775807"
  shows "\<exists>items next_cursor has_more.
      GetTimeline ParseFloat now s u cursor n = Inr (items, next_cursor, has_more) \<and>
      items = map to_item (take (nat n) (filter (\<lambda>e. fst e < c) (rev (timeline_cache s u)))) \<and>
      (\<forall>i\<in>set items. item_Score i < c \<and>
          (item_Score i, item_PostID i) \<in> set (timeline_cache s u)) \<and>
      sorted (rev (map item_Score items)) \<and>
      int (length items) \<le> n \<and>
      (has_more \<longleftrightarrow> n + 1 \<le> int (length (filter (\<lambda>e. fst e < c) (timeline_cache s u)))) \<and>
      (filter (\<lambda>e. fst e < c) (timeline_cache s u) = [] \<longrightarrow> \<not> has_more \<and> next_cursor = []) \<and>
      (items \<noteq> [] \<longrightarrow> next_cursor = Sprintf_0f (item_Score (last items))) \<and>
      (items = [] \<longrightarrow> next_cursor = []) \<and>
      (1 \<le> n \<and> filter (\<lambda>e. fst e < c) (timeline_cache s u) \<noteq> [] \<longrightarrow> items \<noteq> [])"
proof -
  define z where "z = timeline_cache s u"
  define hits where "hits = filter (\<lambda>e. fst e < c) (rev z)"
  define shown where "shown = take (nat n) hits"
  have mx: "resolve_cursor ParseFloat now cursor = Finite (of_int c)"
    using cur by (auto simp: resolve_cursor_def)
  have G: "GetTimeline ParseFloat now s u cursor n =
      Inr (map to_item shown, (if shown = [] then [] else Sprintf_0f (fst (last shown))),
           n < int (length hits))"
    using GetTimeline_page[of ParseFloat now cursor n s u] n len
    by (simp add: mx page_def Let_def hits_def shown_def z_def Sprintf_f_int)
  have p1: "\<forall>i\<in>set (map to_item shown). item_Score i < c \<and> (item_Score i, item_PostID i) \<in> set z"
    by (auto simp: shown_def hits_def dest!: in_set_takeD)
  have p2: "sorted (rev (map item_Score (map to_item shown)))"
    using desc_scores[of z "nat n" "\<lambda>e. fst e < c"] inv
    by (simp add: shown_def hits_def z_def zset_inv_def o_def)
  have p3: "int (length (map to_item shown)) \<le> n" using n by (simp add: shown_def)
  have lh: "length hits = length (filter (\<lambda>e. fst e < c) z)"
    by (simp add: hits_def rev_filter[symmetric])
  have p4: "n < int (length hits) \<longleftrightarrow> n + 1 \<le> int (length (filter (\<lambda>e. fst e < c) z))"
    unfolding lh by linarith
  have he: "hits = [] \<longleftrightarrow> filter (\<lambda>e. fst e < c) z = []"
    using lh by (metis length_0_conv)
  have p5: "filter (\<lambda>e. fst e < c) z = [] \<longrightarrow> \<not> n < int (length hits) \<and> shown = []"
    using n he by (auto simp: shown_def)
  have p7: "1 \<le> n \<and> filter (\<lambda>e. fst e < c) z \<noteq> [] \<longrightarrow> shown \<noteq> []"
    using he by (auto simp: shown_def)
  define items where "items = map to_item shown"
  define next_cursor where
    "next_cursor = (if shown = [] then [] else Sprintf_0f (fst (last shown)))"
  define has_more where "has_more \<longleftrightarrow> n < int (length hits)"
  have ie: "items = [] \<longleftrightarrow> shown = []" by (simp add: items_def)
  have c1: "GetTimeline ParseFloat now s u cursor n = Inr (items, next_cursor, has_more)"
    by (simp only: G items_def next_cursor_def has_more_def)
  have c2: "items = map to_item (take (nat n) (filter (\<lambda>e. fst e < c) (rev (timeline_cache s u))))"
    by (simp only: items_def shown_def hits_def z_def)
  have c3: "\<forall>i\<in>set items. item_Score i < c \<and>
          (item_Score i, item_PostID i) \<in> set (timeline_cache s u)"
    using p1 by (simp only: items_def z_def)
  have c4: "sorted (rev (map item_Score items))" using p2 by (simp only: items_def)
  have c5: "int (length items) \<le> n" using p3 by (simp only: items_def)
  have c6: "has_more \<longleftrightarrow> n + 1 \<le> int (length (filter (\<lambda>e. fst e < c) (timeline_cache s u)))"
    using p4 by (simp only: has_more_def z_def)
  have c7: "filter (\<lambda>e. fst e < c) (timeline_cache s u) = [] \<longrightarrow> \<not> has_more \<and> next_cursor = []"
    using p5 by (simp add: has_more_def next_cursor_def z_def)
  have c8: "items \<noteq> [] \<longrightarrow> next_cursor = Sprintf_0f (item_Score (last items))"
    by (simp add: ie next_cursor_def items_def last_map)
  have c9: "items = [] \<longrightarrow> next_cursor = []"
    by (simp add: ie next_cursor_def)
  have c10: "1 \<le> n \<and> filter (\<lambda>e. fst e < c) (timeline_cache s u) \<noteq> [] \<longrightarrow> items \<noteq> []"
    using p7 by (simp add: ie z_def)
  from c1 c2 c3 c4 c5 c6 c7 c8 c9 c10 show ?thesis by blast
qed

text \<open>
  The second page of one entry each, from the timeline \<open>[(3, 8), (5, 9)]\<close> with cursor 10.
\<close>

theorem GetTimeline_pagination_witness:
  "GetTimeline parse_example 0 sys_posts 2 ''10'' 1 =
     Inr ([\<lparr>item_PostID = 9, item_Score = 5, item_Timestamp = 5000000000\<rparr>], ''5'', True)"
proof -
  have cur: "''10'' = [] \<and> (10::int) = Unix 0 \<or>
             ''10'' \<noteq> [] \<and> parse_example ''10'' = Some (Finite (of_int 10))"
    by (simp add: parse_example_def)
  have len: "int (length (timeline_cache sys_posts 2)) \<le> 9223372036854775807"
    by (simp add: tc_sys_posts)
  from GetTimeline_pagination[where s = sys_posts and u = 2 and cursor = "''10''" and c = 10
         and now = 0 and ParseFloat = parse_example and n = 1] zset_inv_sys_posts len cur
  obtain items next_cursor has_more where
    g: "GetTimeline parse_example 0 sys_posts 2 ''10'' 1 = Inr (items, next_cursor, has_more)"
    and i: "items = map to_item (take (nat 1) (filter (\<lambda>e. fst e < 10) (rev (timeline_cache sys_posts 2))))"
    and m: "has_more \<longleftrightarrow> 1 + 1 \<le> int (length (filter (\<lambda>e. fst e < 10) (timeline_cache sys_posts 2)))"
    and c: "items \<noteq> [] \<longrightarrow> next_cursor = Sprintf_0f (item_Score (last items))"
    by auto
  have i': "items = [\<lparr>item_PostID = 9, item_Score = 5, item_Timestamp = 5000000000\<rparr>]"
    using i by (simp add: tc_sys_posts to_item_def)
  have "has_more" using m by (simp add: tc_sys_posts)
  moreover have "next_cursor = ''5''"
    using c i' by (simp add: Sprintf_0f_def digit_char_def)
  ultimately show ?thesis using g i' by simp
qed

text \<open>
  C5 as stated fails for the limit 0: two entries qualify, so the claim asks for the next
  cursor to be the score of the last returned entry, and the function returns no entry and
  the empty cursor, with \<open>has_more\<close> true.
\<close>

theorem GetTimeline_limit_zero:
  "filter (\<lambda>e. fst e < 10) (timeline_cache sys_posts 2) \<noteq> [] \<and>
   GetTimeline parse_example 0 sys_posts 2 ''10'' 0 = Inr ([], [], True)"
  by (simp add: tc_sys_posts GetTimeline_def parse_example_def ZRevRangeByScoreWithScores_def
        Sprintf_f_int[of 10, simplified] wrap64_id Let_def)

section \<open>Idempotent insertion\<close>

text \<open>
  C6, amended. With every sorted set of the store well formed: running \<open>AddToTimeline\<close>,
  \<open>BatchAddToTimeline\<close> or the whole fan-out of a post any number of times (\<open>Suc n\<close>)
  leaves every timeline as one run leaves it; a timeline never holds two entries for one
  post; and after the fan-out a selected owner holds exactly one entry for the post when
  fewer than 1000 other entries of the owner rank above it, and none otherwise, because
  the trim evicts it at once.
\<close>

theorem timeline_insertion_idempotent:
  assumes inv: "\<forall>v. zset_inv (timeline_cache s v)"
  shows
    "timeline_cache (((\<lambda>x. AddToTimeline x u p sc ts) ^^ Suc n) s) =
       timeline_cache (AddToTimeline s u p sc ts) \<and>
     timeline_cache (((\<lambda>x. BatchAddToTimeline x us p sc ts) ^^ Suc n) s) =
       timeline_cache (BatchAddToTimeline s us p sc ts) \<and>
     timeline_cache (((\<lambda>x. distributePostOptimized cfg now x post author) ^^ Suc n) s) =
       timeline_cache (distributePostOptimized cfg now s post author) \<and>
     (\<forall>q. length (filter (\<lambda>e. snd e = q) (timeline_cache (AddToTimeline s u p sc ts) u)) \<le> 1) \<and>
     (\<forall>v q. length (filter (\<lambda>e. snd e = q)
                (timeline_cache (BatchAddToTimeline s us p sc ts) v)) \<le> 1) \<and>
     (\<forall>v q. length (filter (\<lambda>e. snd e = q)
                (timeline_cache (distributePostOptimized cfg now s post author) v)) \<le> 1) \<and>
     (\<forall>v\<in>set (targets cfg s author).
        filter (\<lambda>e. snd e = post_ID post)
          (timeline_cache (distributePostOptimized cfg now s post author) v) =
        (if length (filter (\<lambda>e. snd e \<noteq> post_ID post \<and>
                        (Unix (post_CreatedAt post), post_ID post) < e) (timeline_cache s v)) < 1000
         then [(Unix (post_CreatedAt post), post_ID post)] else []))"
proof -
  have a: "timeline_cache (((\<lambda>x. AddToTimeline x u p sc ts) ^^ Suc n) s) =
       timeline_cache (AddToTimeline s u p sc ts)"
    by (rule funpow_idem[where I = "\<lambda>x. \<forall>v. zset_inv (timeline_cache x v)"])
       (use inv Add_step in blast)+
  have b: "timeline_cache (((\<lambda>x. BatchAddToTimeline x us p sc ts) ^^ Suc n) s) =
       timeline_cache (BatchAddToTimeline s us p sc ts)"
    by (rule funpow_idem[where I = "\<lambda>x. \<forall>v. zset_inv (timeline_cache x v)"])
       (use inv Batch_step in blast)+
  have c: "timeline_cache (((\<lambda>x. distributePostOptimized cfg now x post author) ^^ Suc n) s) =
       timeline_cache (distributePostOptimized cfg now s post author)"
    by (rule funpow_idem[where I = "\<lambda>x. \<forall>v. zset_inv (timeline_cache x v)"])
       (use inv distribute_step in blast)+
  have d: "length (filter (\<lambda>e. snd e = q) (timeline_cache (AddToTimeline s u p sc ts) u)) \<le> 1" for q
    by (rule length_filter_member_le1)
       (use Add_step[OF inv, of u p sc ts] in \<open>simp add: zset_inv_def\<close>)
  have e: "length (filter (\<lambda>e. snd e = q)
                (timeline_cache (BatchAddToTimeline s us p sc ts) v)) \<le> 1" for v q
    by (rule length_filter_member_le1)
       (use Batch_step[OF inv, of us p sc ts] in \<open>simp add: zset_inv_def\<close>)
  have f: "length (filter (\<lambda>e. snd e = q)
                (timeline_cache (distributePostOptimized cfg now s post author) v)) \<le> 1" for v q
    by (rule length_filter_member_le1)
       (use distribute_step[OF inv, of cfg now post author] in \<open>simp add: zset_inv_def\<close>)
  have g: "filter (\<lambda>e. snd e = post_ID post)
          (timeline_cache (distributePostOptimized cfg now s post author) v) =
        (if length (filter (\<lambda>e. snd e \<noteq> post_ID post \<and>
                        (Unix (post_CreatedAt post), post_ID post) < e) (timeline_cache s v)) < 1000
         then [(Unix (post_CreatedAt post), post_ID post)] else [])"
    if "v \<in> set (targets cfg s author)" for v
    using that inv by (simp add: tc_distribute filter_member_add_entry)
  from a b c d e f g show ?thesis by blast
qed

text \<open>Three runs of an insertion into \<open>[(3, 8), (5, 9)]\<close>, and a fan-out to follower 2.\<close>

theorem timeline_insertion_idempotent_witness:
  "(\<forall>v. zset_inv (timeline_cache sys_posts v)) \<and>
   timeline_cache (((\<lambda>x. AddToTimeline x 2 7 1 6000000000) ^^ Suc 2) sys_posts) 2 =
     [(3, 8), (5, 9), (6, 7)] \<and>
   filter (\<lambda>e. snd e = 7)
     (timeline_cache (distributePostOptimized cfg0 day sys_posts (mk_post 7 1 6000000000)
        (mk_user 1 1 None 0)) 2) = [(6, 7)]"
proof -
  note th = timeline_insertion_idempotent[OF inv_sys_posts, where u = 2 and p = 7 and sc = 1
      and ts = 6000000000 and n = 2 and us = "[2]" and cfg = cfg0 and now = day
      and post = "mk_post 7 1 6000000000" and author = "mk_user 1 1 None 0"]
  have one: "timeline_cache (AddToTimeline sys_posts 2 7 1 6000000000) 2 = [(3, 8), (5, 9), (6, 7)]"
    by (simp add: tc_AddToTimeline add_entry_def ZAdd_def Unix_def tc_sys_posts Let_def)
  from th have "timeline_cache (((\<lambda>x. AddToTimeline x 2 7 1 6000000000) ^^ Suc 2) sys_posts) =
       timeline_cache (AddToTimeline sys_posts 2 7 1 6000000000)" by blast
  with one have a: "timeline_cache (((\<lambda>x. AddToTimeline x 2 7 1 6000000000) ^^ Suc 2) sys_posts) 2 =
     [(3, 8), (5, 9), (6, 7)]" by simp
  from th have "\<forall>v\<in>set (targets cfg0 sys_posts (mk_user 1 1 None 0)).
        filter (\<lambda>e. snd e = post_ID (mk_post 7 1 6000000000))
          (timeline_cache (distributePostOptimized cfg0 day sys_posts (mk_post 7 1 6000000000)
             (mk_user 1 1 None 0)) v) =
        (if length (filter (\<lambda>e. snd e \<noteq> post_ID (mk_post 7 1 6000000000) \<and>
                        (Unix (post_CreatedAt (mk_post 7 1 6000000000)),
                         post_ID (mk_post 7 1 6000000000)) < e) (timeline_cache sys_posts v)) < 1000
         then [(Unix (post_CreatedAt (mk_post 7 1 6000000000)), post_ID (mk_post 7 1 6000000000))]
         else [])" by blast
  then have b: "filter (\<lambda>e. snd e = 7)
     (timeline_cache (distributePostOptimized cfg0 day sys_posts (mk_post 7 1 6000000000)
        (mk_user 1 1 None 0)) 2) = [(6, 7)]"
    by (simp add: targets_sys_posts tc_sys_posts mk_post_def Unix_def)
  from inv_sys_posts a b show ?thesis by blast
qed

text \<open>
  C6 as stated fails where the cap is reached: follower 2 holds 1000 entries with scores 1
  to 1000, and the post 2000 created at second 0 is fanned out to followers 2 and 1.
  Afterwards the timeline of follower 2 holds no entry for the post.
\<close>

theorem fanout_evicted_at_once:
  "targets cfg0 sys_full (mk_user 1 1 None 0) = [2, 1] \<and>
   filter (\<lambda>e. snd e = 2000)
     (timeline_cache
        (distributePostOptimized cfg0 day sys_full (mk_post 2000 1 0) (mk_user 1 1 None 0)) 2) = []"
proof -
  have tc2: "timeline_cache sys_full 2 = full_timeline"
    by (simp add: sys_full_def sys_follow_def sys0_def)
  have all: "filter (\<lambda>e. snd e \<noteq> 2000 \<and> (0, 2000) < e) full_timeline = full_timeline"
    using full_timeline_above by (simp add: filter_id_conv)
  have len: "length full_timeline = 1000" by (simp add: full_timeline_def)
  have "timeline_cache
        (distributePostOptimized cfg0 day sys_full (mk_post 2000 1 0) (mk_user 1 1 None 0)) 2
        = add_entry full_timeline 0 2000"
    using tc_distribute[of sys_full 2 cfg0 day "mk_post 2000 1 0" "mk_user 1 1 None 0"]
      zset_inv_full_timeline
    by (simp add: tc2 targets_sys_full mk_post_def Unix_def)
  then show ?thesis
    using filter_member_add_entry[OF zset_inv_full_timeline, of 2000 0]
    by (simp add: targets_sys_full all len)
qed

section \<open>The cap\<close>

text \<open>
  C7. After \<open>AddToTimeline\<close>, and after a \<open>BatchAddToTimeline\<close> that includes the owner, the
  owner's timeline holds at most \<open>MaxTimelineSize\<close> = 1000 entries, and the batch leaves the
  owner's timeline as the single insertion does. The set after the insertion is the
  evicted entries followed by the kept ones: as many are evicted as exceed the cap, and
  every evicted entry ranks, and scores, no higher than every kept one.
\<close>

theorem timeline_cap:
  assumes inv: "zset_inv (timeline_cache s u)"
  shows
    "int (length (timeline_cache (AddToTimeline s u p sc ts) u)) \<le> MaxTimelineSize \<and>
     (u \<in> set us \<longrightarrow>
        int (length (timeline_cache (BatchAddToTimeline s us p sc ts) u)) \<le> MaxTimelineSize \<and>
        timeline_cache (BatchAddToTimeline s us p sc ts) u =
          timeline_cache (AddToTimeline s u p sc ts) u) \<and>
     (let z1 = ZAdd (timeline_cache s u) (Unix ts) p;
          z2 = timeline_cache (AddToTimeline s u p sc ts) u;
          evicted = take (length z1 - nat MaxTimelineSize) z1
      in z1 = evicted @ z2 \<and>
         length z2 = min (length z1) (nat MaxTimelineSize) \<and>
         (\<forall>e\<in>set evicted. \<forall>k\<in>set z2. e \<le> k \<and> fst e \<le> fst k))"
proof -
  define z1 where "z1 = ZAdd (timeline_cache s u) (Unix ts) p"
  have z2: "timeline_cache (AddToTimeline s u p sc ts) u = drop (length z1 - 1000) z1"
    by (simp add: tc_AddToTimeline add_entry_def z1_def Let_def)
  have s1: "sorted z1" using zset_inv_ZAdd[OF inv] by (simp add: z1_def zset_inv_def)
  have "sorted (take (length z1 - 1000) z1 @ drop (length z1 - 1000) z1)"
    using s1 by simp
  then have ord: "\<forall>e\<in>set (take (length z1 - 1000) z1). \<forall>k\<in>set (drop (length z1 - 1000) z1). e \<le> k"
    by (simp only: sorted_append) blast
  have fst_le: "fst e \<le> fst k" if "e \<le> k" for e k :: "int \<times> uuid"
    using that by (auto simp: less_eq_prod_def)
  have b: "timeline_cache (BatchAddToTimeline s us p sc ts) u =
          timeline_cache (AddToTimeline s u p sc ts) u" if "u \<in> set us"
    using that inv by (simp add: tc_BatchAddToTimeline tc_AddToTimeline)
  show ?thesis
    using ord fst_le b
    by (simp add: z2 z1_def[symmetric] MaxTimelineSize_def Let_def min_def)
qed

text \<open>An insertion into the timeline at the cap: 1001 entries, trimmed to 1000.\<close>

theorem timeline_cap_witness:
  "zset_inv (timeline_cache sys_full 2) \<and>
   length (ZAdd (timeline_cache sys_full 2) 5000 2000) = 1001 \<and>
   length (timeline_cache (AddToTimeline sys_full 2 2000 1 5000000000000) 2) = 1000 \<and>
   timeline_cache (BatchAddToTimeline sys_full [2] 2000 1 5000000000000) 2 =
     timeline_cache (AddToTimeline sys_full 2 2000 1 5000000000000) 2"
proof -
  have tc2: "timeline_cache sys_full 2 = full_timeline"
    by (simp add: sys_full_def sys_follow_def sys0_def)
  have inv: "zset_inv (timeline_cache sys_full 2)"
    by (simp add: tc2 zset_inv_full_timeline)
  have all: "filter (\<lambda>e. snd e \<noteq> 2000) full_timeline = full_timeline"
    using full_timeline_above by (simp add: filter_id_conv)
  have "length full_timeline = 1000" by (simp add: full_timeline_def)
  then have len: "length (ZAdd (timeline_cache sys_full 2) 5000 2000) = 1001"
    by (simp add: tc2 length_ZAdd all)
  have u: "Unix 5000000000000 = 5000" by (simp add: Unix_def)
  from timeline_cap[OF inv, where p = 2000 and sc = 1 and ts = 5000000000000 and us = "[2]"]
    len inv
  show ?thesis
    by (simp add: Let_def u MaxTimelineSize_def)
qed

section \<open>The score of an entry\<close>



section \<open>Deleting a post\<close>

lemma sys_fanned_eval:
  "posts sys_fanned 7 = Some (mk_post 7 1 0)"
  "posts sys_fanned 1 = None"
  "timelines sys_fanned = [\<lparr>tl_UserID = 2, tl_PostID = 7, tl_Score = 1, tl_CreatedAt = 0\<rparr>]"
  "timeline_cache sys_fanned 2 = [(0, 7), (3, 8), (5, 9)]"
  "timeline_cache sys_fanned 1 = [(0, 7)]"
  by (simp_all add: sys_fanned_def distributePostOptimized_def distributeForRegularUser_def
        FollowRepository_GetFollowers_def sql_page_def List.map_filter_def Let_def
        example_defs cache_defs)

text \<open>
  C9, amended. \<open>DeletePost\<close> has four outcomes, decided in this order. A post id that does
  not parse gives the invalid-id error. A post id that parses, with no post stored under it
  or only a deleted one, gives the not-found error. A stored, not deleted post whose
  author's string differs from the caller's id gives the permission-denied error. In these
  three cases the whole state is left as it was: the posts, the table of timelines and the
  cached timelines. Otherwise the call succeeds, and the state it leaves differs from the
  one before in exactly three places: the post is marked deleted, the rows of the table of
  timelines that refer to the post are gone, and the event \<open>post_deleted\<close> is published;
  the cached timelines are as before. So an error changes nothing, and a call without error
  is the author's call on a stored, not deleted post.
\<close>

theorem DeletePost_outcomes:
  "(Parse postID = None \<longrightarrow>
       DeletePost Parse String now s userID postID = (s, Some InvalidPostID)) \<and>
   (\<forall>pid. Parse postID = Some pid \<and> (\<forall>post. posts s pid = Some post \<longrightarrow> IsDeleted post) \<longrightarrow>
       DeletePost Parse String now s userID postID = (s, Some PostNotFound)) \<and>
   (\<forall>pid post. Parse postID = Some pid \<and> posts s pid = Some post \<and> \<not> IsDeleted post \<and>
        String (post_UserID post) \<noteq> userID \<longrightarrow>
       DeletePost Parse String now s userID postID = (s, Some PermissionDenied)) \<and>
   (\<forall>pid post. Parse postID = Some pid \<and> posts s pid = Some post \<and> \<not> IsDeleted post \<and>
        String (post_UserID post) = userID \<longrightarrow>
       DeletePost Parse String now s userID postID =
         (s\<lparr>posts := (posts s)(pid \<mapsto> post\<lparr>IsDeleted := True\<rparr>),
            timelines := filter (\<lambda>tl. tl_PostID tl \<noteq> pid) (timelines s),
            bus := bus s @ [PostDeleted postID userID now]\<rparr>, None)) \<and>
   (snd (DeletePost Parse String now s userID postID) \<noteq> None \<longrightarrow>
       fst (DeletePost Parse String now s userID postID) = s) \<and>
   (snd (DeletePost Parse String now s userID postID) = None \<longrightarrow>
       (\<exists>pid post. Parse postID = Some pid \<and> posts s pid = Some post \<and> \<not> IsDeleted post \<and>
          String (post_UserID post) = userID)) \<and>
   timeline_cache (fst (DeletePost Parse String now s userID postID)) = timeline_cache s"
  by (auto simp: DeletePost_def PostRepository_GetByID_def PostRepository_Delete_def
        TimelineRepository_DeleteByPostID_def Publish_def Let_def
      split: option.splits if_splits)

text \<open>
  The four outcomes on the state in which post 7 has been fanned out: an id that does not
  parse, an id without a post, a caller who is not the author, and the author's call.
\<close>

theorem DeletePost_outcomes_witness:
  "DeletePost uuid_Parse_example uuid_String_example day sys_fanned ''u1'' ''zz''
     = (sys_fanned, Some InvalidPostID) \<and>
   DeletePost uuid_Parse_example uuid_String_example day sys_fanned ''u1'' ''u1''
     = (sys_fanned, Some PostNotFound) \<and>
   DeletePost uuid_Parse_example uuid_String_example day sys_fanned ''other'' ''p7''
     = (sys_fanned, Some PermissionDenied) \<and>
   DeletePost uuid_Parse_example uuid_String_example day sys_fanned ''u1'' ''p7''
     = (sys_fanned\<lparr>posts := (posts sys_fanned)(7 \<mapsto> (mk_post 7 1 0)\<lparr>IsDeleted := True\<rparr>),
                   timelines := [],
                   bus := bus sys_fanned @ [PostDeleted ''p7'' ''u1'' day]\<rparr>, None)"
proof -
  have pz: "uuid_Parse_example ''zz'' = None" and p1: "uuid_Parse_example ''u1'' = Some 1"
    and p7: "uuid_Parse_example ''p7'' = Some 7"
    by (simp_all add: uuid_Parse_example_def)
  have author: "uuid_String_example (post_UserID (mk_post 7 1 0)) = ''u1''"
    and live: "\<not> IsDeleted (mk_post 7 1 0)"
    by (simp_all add: mk_post_def uuid_String_example_def)
  have a: "DeletePost uuid_Parse_example uuid_String_example day sys_fanned ''u1'' ''zz''
     = (sys_fanned, Some InvalidPostID)"
    using DeletePost_outcomes[where Parse = uuid_Parse_example and postID = "''zz''"
        and s = sys_fanned and String = uuid_String_example and now = day and userID = "''u1''"]
      pz by blast
  have b: "DeletePost uuid_Parse_example uuid_String_example day sys_fanned ''u1'' ''u1''
     = (sys_fanned, Some PostNotFound)"
    using DeletePost_outcomes[where Parse = uuid_Parse_example and postID = "''u1''"
        and s = sys_fanned and String = uuid_String_example and now = day and userID = "''u1''"]
      p1 sys_fanned_eval(2) by simp
  have c: "DeletePost uuid_Parse_example uuid_String_example day sys_fanned ''other'' ''p7''
     = (sys_fanned, Some PermissionDenied)"
    using DeletePost_outcomes[where Parse = uuid_Parse_example and postID = "''p7''"
        and s = sys_fanned and String = uuid_String_example and now = day
        and userID = "''other''"]
      p7 sys_fanned_eval(1) author live by simp
  have d: "DeletePost uuid_Parse_example uuid_String_example day sys_fanned ''u1'' ''p7''
     = (sys_fanned\<lparr>posts := (posts sys_fanned)(7 \<mapsto> (mk_post 7 1 0)\<lparr>IsDeleted := True\<rparr>),
                   timelines := [],
                   bus := bus sys_fanned @ [PostDeleted ''p7'' ''u1'' day]\<rparr>, None)"
    using DeletePost_outcomes[where Parse = uuid_Parse_example and postID = "''p7''"
        and s = sys_fanned and String = uuid_String_example and now = day and userID = "''u1''"]
      p7 sys_fanned_eval(1) sys_fanned_eval(3) author live by simp
  from a b c d show ?thesis by blast
qed

text \<open>
  C9 as stated fails in two places. The post 7 of author 1 was fanned out, so the cached
  timelines of follower 2 and of the author hold it; the author deletes it, the call
  succeeds and marks the post deleted, and both cached timelines still hold the entry:
  only the row of the table of timelines is removed. And for the post id \<open>zz\<close>, under
  which no post exists, the error is the invalid-id error, not the not-found error.
\<close>

theorem DeletePost_keeps_cached_entries:
  "ZScore (timeline_cache sys_fanned 2) 7 = Some 0 \<and>
   ZScore (timeline_cache sys_fanned 1) 7 = Some 0 \<and>
   snd (DeletePost uuid_Parse_example uuid_String_example day sys_fanned ''u1'' ''p7'') = None \<and>
   map_option IsDeleted
     (posts (fst (DeletePost uuid_Parse_example uuid_String_example day sys_fanned
                    ''u1'' ''p7'')) 7) = Some True \<and>
   timelines (fst (DeletePost uuid_Parse_example uuid_String_example day sys_fanned
                    ''u1'' ''p7'')) = [] \<and>
   timeline_cache (fst (DeletePost uuid_Parse_example uuid_String_example day sys_fanned
                    ''u1'' ''p7'')) 2 = [(0, 7), (3, 8), (5, 9)] \<and>
   timeline_cache (fst (DeletePost uuid_Parse_example uuid_String_example day sys_fanned
                    ''u1'' ''p7'')) 1 = [(0, 7)] \<and>
   uuid_Parse_example ''zz'' = None \<and>
   DeletePost uuid_Parse_example uuid_String_example day sys_fanned ''u1'' ''zz''
     = (sys_fanned, Some InvalidPostID)"
  by (simp add: DeletePost_def PostRepository_GetByID_def PostRepository_Delete_def
        TimelineRepository_DeleteByPostID_def Publish_def Let_def sys_fanned_eval ZScore_def
        uuid_Parse_example_def uuid_String_example_def mk_post_def)

section \<open>A cursor that does not parse\<close>

text \<open>
  C10. For a cursor that \<open>ParseFloat\<close> rejects, \<open>GetTimeline\<close> returns what it returns for
  the empty cursor of a first page, it does not return the error of the store, and for a
  limit that is not negative it returns a page all of whose items score below the Unix
  time of the clock.
\<close>

theorem GetTimeline_unparsable_cursor:
  assumes "ParseFloat cursor = None"
  shows "GetTimeline ParseFloat now s u cursor n = GetTimeline ParseFloat now s u [] n \<and>
         GetTimeline ParseFloat now s u cursor n \<noteq> Inl RedisError \<and>
         (0 \<le> n \<longrightarrow>
            (\<exists>items next_cursor has_more.
               GetTimeline ParseFloat now s u cursor n = Inr (items, next_cursor, has_more) \<and>
               (\<forall>i\<in>set items. item_Score i < Unix now \<and>
                   (item_Score i, item_PostID i) \<in> set (timeline_cache s u))))"
proof -
  have eq: "GetTimeline ParseFloat now s u cursor n = GetTimeline ParseFloat now s u [] n"
    using assms by (cases "cursor = []") (simp_all add: GetTimeline_def)
  have ne: "GetTimeline ParseFloat now s u [] n \<noteq> Inl RedisError"
    by (simp add: GetTimeline_def ZRevRangeByScoreWithScores_def Let_def)
  have ex: "\<exists>items next_cursor has_more.
               GetTimeline ParseFloat now s u [] n = Inr (items, next_cursor, has_more) \<and>
               (\<forall>i\<in>set items. item_Score i < Unix now \<and>
                   (item_Score i, item_PostID i) \<in> set (timeline_cache s u))" if "0 \<le> n"
    using that
    by (auto simp: GetTimeline_def ZRevRangeByScoreWithScores_def Let_def Sprintf_f_int
          dest!: in_set_takeD)
  from eq ne ex show ?thesis by simp
qed

text \<open>The cursor \<open>abc\<close>, at second 6, on the timeline \<open>[(3, 8), (5, 9)]\<close>.\<close>

theorem GetTimeline_unparsable_cursor_witness:
  "parse_example ''abc'' = None \<and>
   GetTimeline parse_example 6000000000 sys_posts 2 ''abc'' 5 =
     GetTimeline parse_example 6000000000 sys_posts 2 [] 5 \<and>
   GetTimeline parse_example 6000000000 sys_posts 2 ''abc'' 5 =
     Inr ([\<lparr>item_PostID = 9, item_Score = 5, item_Timestamp = 5000000000\<rparr>,
           \<lparr>item_PostID = 8, item_Score = 3, item_Timestamp = 3000000000\<rparr>], ''3'', False)"
proof -
  have p: "parse_example ''abc'' = None" by (simp add: parse_example_def)
  have "GetTimeline parse_example 6000000000 sys_posts 2 [] 5 =
     Inr ([\<lparr>item_PostID = 9, item_Score = 5, item_Timestamp = 5000000000\<rparr>,
           \<lparr>item_PostID = 8, item_Score = 3, item_Timestamp = 3000000000\<rparr>], ''3'', False)"
    by (simp add: tc_sys_posts GetTimeline_def ZRevRangeByScoreWithScores_def Unix_def
        Sprintf_f_int[of 6, simplified] wrap64_id Let_def to_item_def Sprintf_0f_def digit_char_def)
  with GetTimeline_unparsable_cursor[where ParseFloat = parse_example and cursor = "''abc''"
         and now = 6000000000 and s = sys_posts and u = 2 and n = 5] p
  show ?thesis by simp
qed

end
